theory Spec2Isabelle
  imports Complex_Main
begin

section \<open>Tensors, errors and the pipeline object\<close>

text \<open>
  Tensors are indexed families of reals. A single-channel image (a mask, a tile weight
  map) is a \<open>plane\<close>, indexed by row and column; a latent is indexed by channel, row and
  column. The batch axis of the source is a list. Elementwise tensor arithmetic of the
  source is pointwise arithmetic here, over the reals: rounding is not modelled, so a
  statement below that depends on two computed numbers being equal names them by the
  expression that computes them, not by a decimal. A floating-point division by zero
  gives an infinity or NaN; where a statement depends on it the quotient is modelled by
  \<open>torch_div\<close> below, and elsewhere the statements assume a divisor that is not zero.
\<close>

type_synonym plane = "nat \<Rightarrow> nat \<Rightarrow> real"
type_synonym latent = "nat \<Rightarrow> nat \<Rightarrow> nat \<Rightarrow> real"

datatype error =
    AssertionError string
  | AttributeError string
  | NameError string
  | TypeError string
  | ValueError string
  | IndexError
  | ShapeError
  | RuntimeError string

text \<open>A stored tensor whose \<open>shape[-2]\<close> and \<open>shape[-1]\<close> the code reads.\<close>

record shaped =
  rows :: nat
  cols :: nat
  dat :: latent

record pipeline =
  default_mask_std :: real
  default_mask_strength :: real
  default_prompt_strength :: real
  default_t_list :: "int list"
  default_bootstrap_steps :: int
  default_boostrap_mix_steps :: real
  default_bootstrap_leak_sensitivity :: real
  default_preprocess_mask_cover_alpha :: real
  default_num_inference_steps :: nat
  default_guidance_scale :: real
  mask_type :: string
  has_i2t :: bool
  vae_scale_factor :: nat
  vae_scaling_factor :: real
  vae_shift_factor :: real
  timesteps :: "real list"
  sigmas :: "real list"
  sigmas_next :: "real list"
  noise_lvs :: "real list"
  next_noise_lvs :: "real list"
  white :: "shaped option"
  encode_calls :: nat
  pipe_guidance_scale :: real
  pipe_clip_skip :: "int option"
  pipe_joint_attention_kwargs :: "(string \<times> string) list option"
  pipe_interrupt :: bool

section \<open>Noise schedule\<close>

text \<open>Python indexing of a sequence by an integer: negative indices count from the end.\<close>

definition py_index :: "'a list \<Rightarrow> int \<Rightarrow> error + 'a" where
  "py_index xs i =
     (if 0 \<le> i \<and> i < int (length xs) then Inr (xs ! nat i)
      else if i < 0 \<and> - int (length xs) \<le> i then Inr (xs ! nat (int (length xs) + i))
      else Inl IndexError)"

fun py_gather :: "'a list \<Rightarrow> int list \<Rightarrow> error + 'a list" where
  "py_gather xs [] = Inr []"
| "py_gather xs (i # is) =
     (case py_index xs i of
        Inl e \<Rightarrow> Inl e
      | Inr v \<Rightarrow> (case py_gather xs is of Inl e \<Rightarrow> Inl e | Inr vs \<Rightarrow> Inr (v # vs)))"

text \<open>\<open>sigmas * (sigmas**2 + 1)**(-0.5)\<close>, for one entry.\<close>

definition noise_level :: "real \<Rightarrow> real" where
  "noise_level s = s * (s\<^sup>2 + 1) powr (- (1 / 2))"

text \<open>\<open>torch.cat([xs, zeros(1)])[1:]\<close>: the sequence shifted left, last entry 0.\<close>

definition shift_next :: "real list \<Rightarrow> real list" where
  "shift_next xs = tl (xs @ [0])"

text \<open>
  The scheduler object is external: \<open>sched_timesteps n\<close> and \<open>sched_sigmas n\<close> are its
  \<open>timesteps\<close> and \<open>sigmas\<close> tables after \<open>set_timesteps(n)\<close>. The tables are indexed
  by \<open>torch.tensor(t_index_list)\<close>; of an empty list this is a tensor of floats, which
  is no index.
\<close>

definition prepare_flashflowmatch_schedule ::
  "(nat \<Rightarrow> real list) \<Rightarrow> (nat \<Rightarrow> real list) \<Rightarrow> pipeline \<Rightarrow> int list option \<Rightarrow> nat option
     \<Rightarrow> error + pipeline" where
  "prepare_flashflowmatch_schedule sched_timesteps sched_sigmas self t_index_list num_inference_steps =
     (let t_index_list = (case t_index_list of None \<Rightarrow> default_t_list self | Some l \<Rightarrow> l);
          num_inference_steps =
            (case num_inference_steps of None \<Rightarrow> default_num_inference_steps self | Some n \<Rightarrow> n)
      in if t_index_list = [] then Inl IndexError
         else case py_gather (sched_timesteps num_inference_steps) t_index_list of
           Inl e \<Rightarrow> Inl e
         | Inr ts \<Rightarrow>
            (case py_gather (sched_sigmas num_inference_steps) t_index_list of
               Inl e \<Rightarrow> Inl e
             | Inr sg \<Rightarrow>
                 Inr (self\<lparr>timesteps := ts,
                           sigmas := sg,
                           sigmas_next := shift_next sg,
                           noise_lvs := map noise_level sg,
                           next_noise_lvs := shift_next (map noise_level sg)\<rparr>)))"

definition scheduler_step :: "pipeline \<Rightarrow> latent \<Rightarrow> nat \<Rightarrow> latent \<Rightarrow> latent" where
  "scheduler_step self noise_pred idx latent =
     (\<lambda>c y x. latent c y x - noise_pred c y x * (sigmas self ! idx))"

text \<open>
  \<open>fresh\<close> is the sample that \<open>torch.randn_like(latent)\<close> draws when \<open>noise\<close> is \<open>None\<close>.
\<close>

definition scheduler_add_noise :: "pipeline \<Rightarrow> latent \<Rightarrow> latent \<Rightarrow> latent option \<Rightarrow> int \<Rightarrow> latent" where
  "scheduler_add_noise self fresh latent noise idx =
     (if idx < int (length (sigmas self)) \<and> idx \<ge> 0 then
        let noise = (case noise of None \<Rightarrow> fresh | Some n \<Rightarrow> n)
        in (\<lambda>c y x. (1 - sigmas self ! nat idx) * latent c y x + sigmas self ! nat idx * noise c y x)
      else latent)"

section \<open>Mask preprocessing\<close>

text \<open>
  A PIL image is modelled by what \<open>T.ToTensor()\<close> makes of it: its number of bands and
  its pixel values in \<open>[0, 1]\<close>, indexed by band, row and column.
\<close>

record pil_image =
  nbands :: nat
  to_tensor :: latent

datatype masks_arg = MImage pil_image | MList "pil_image list" | MTensor "plane list"

text \<open>
  A per-region parameter given as one number, as a list or tuple of numbers, or as a
  tensor of numbers.
\<close>

datatype per_region = Scalar real | PerRegion "real list" | PerTensor "real list"

text \<open>
  What \<open>process_mask\<close> calls from outside this file: \<open>F.interpolate\<close> in bilinear mode
  (to the given height and width), the source index that \<open>F.interpolate\<close> in nearest mode
  reads for a destination index (input size, output size, destination index), and
  \<open>gaussian_lowpass\<close> of \<open>util\<close>.
\<close>

record mask_ops =
  interpolate_bilinear :: "nat \<Rightarrow> nat \<Rightarrow> plane \<Rightarrow> plane"
  nearest_src :: "nat \<Rightarrow> nat \<Rightarrow> nat \<Rightarrow> nat"
  gaussian_lowpass :: "plane list \<Rightarrow> real list \<Rightarrow> plane list"

definition clip :: "real \<Rightarrow> real \<Rightarrow> real \<Rightarrow> real" where
  "clip lo hi v = min hi (max lo v)"

definition of_bool_real :: "bool \<Rightarrow> real" where
  "of_bool_real b = (if b then 1 else 0)"

text \<open>\<open>proc\<close>, followed by \<open>.float().clip_(0, 1)\<close>, on the last band of the image.\<close>

definition proc :: "bool \<Rightarrow> pil_image \<Rightarrow> plane" where
  "proc use_boolean_mask m =
     (let band = to_tensor m (nbands m - 1)
      in if use_boolean_mask
         then (\<lambda>y x. clip 0 1 (of_bool_real (band y x < 0.5)))
         else (\<lambda>y x. clip 0 1 (1.0 - band y x)))"

definition masks_to_tensor :: "bool \<Rightarrow> masks_arg \<Rightarrow> error + plane list" where
  "masks_to_tensor use_boolean_mask masks =
     (case masks of
        MImage m \<Rightarrow> Inr [proc use_boolean_mask m]
      | MList ms \<Rightarrow> (if ms = [] then Inl ShapeError else Inr (map (proc use_boolean_mask) ms))
      | MTensor t \<Rightarrow> Inr t)"

text \<open>\<open>masks.sum(dim=0)\<close>.\<close>

definition sum_planes :: "plane list \<Rightarrow> plane" where
  "sum_planes ms = (\<lambda>y x. sum_list (map (\<lambda>m. m y x) ms))"

text \<open>
  The overlap decay: masks with higher indices cover the masks with smaller indices.
\<close>

definition cover_decay :: "real \<Rightarrow> plane list \<Rightarrow> plane list" where
  "cover_decay alpha masks =
     map (\<lambda>i. let mask = masks ! i
               in if int i < int (length masks) - 1
                  then (\<lambda>y x. if sum_planes (drop (i + 1) masks) y x > 0
                               then mask y x * alpha else mask y x)
                  else mask)
         [0..<length masks]"

definition overlap_decay :: "pipeline \<Rightarrow> real option \<Rightarrow> plane list \<Rightarrow> plane list" where
  "overlap_decay self preprocess_mask_cover_alpha masks =
     (let alpha = (case preprocess_mask_cover_alpha of
                     None \<Rightarrow> default_preprocess_mask_cover_alpha self | Some a \<Rightarrow> a)
      in if alpha > 0 then cover_decay alpha masks else masks)"

text \<open>The scheduler noise levels that mask quantization uses, and the next lower ones.\<close>

definition mask_noise_lvs :: "pipeline \<Rightarrow> real list option \<Rightarrow> real list \<times> real list" where
  "mask_noise_lvs self timesteps' =
     (case timesteps' of
        None \<Rightarrow> (noise_lvs self, next_noise_lvs self)
      | Some _ \<Rightarrow> (let noise_lvs' = map noise_level (sigmas self)
                   in (noise_lvs', shift_next noise_lvs')))"

definition per_region_list :: "real \<Rightarrow> per_region option \<Rightarrow> nat \<Rightarrow> real list" where
  "per_region_list dflt v n =
     (case (case v of None \<Rightarrow> Scalar dflt | Some u \<Rightarrow> u) of
        Scalar s \<Rightarrow> replicate n s
      | PerRegion l \<Rightarrow> l
      | PerTensor l \<Rightarrow> l)"

text \<open>
  A per-region argument that fits \<open>n\<close> masks: nothing, one number, or a sequence of
  \<open>n\<close> numbers.
\<close>

definition per_region_ok :: "nat \<Rightarrow> per_region option \<Rightarrow> bool" where
  "per_region_ok n v =
     (case v of
        None \<Rightarrow> True
      | Some (Scalar s) \<Rightarrow> True
      | Some (PerRegion l) \<Rightarrow> length l = n
      | Some (PerTensor l) \<Rightarrow> length l = n)"

text \<open>Broadcasting of the leading axis in an elementwise binary operation.\<close>

definition bcast2 :: "('a \<Rightarrow> 'b \<Rightarrow> 'c) \<Rightarrow> 'a list \<Rightarrow> 'b list \<Rightarrow> error + 'c list" where
  "bcast2 f xs ys =
     (if length xs = length ys then Inr (map2 f xs ys)
      else if length ys = 1 then Inr (map (\<lambda>x. f x (hd ys)) xs)
      else if length xs = 1 then Inr (map (f (hd xs)) ys)
      else Inl ShapeError)"

definition discrete_q :: "real \<Rightarrow> real \<Rightarrow> real" where
  "discrete_q nl v = of_bool_real (v > nl)"

text \<open>
  The continuous quantizer, for a noise level \<open>nl\<close> that differs from the next level
  \<open>nx\<close> (with equal levels the source divides by zero).
\<close>

definition continuous_q :: "real \<Rightarrow> real \<Rightarrow> real \<Rightarrow> real" where
  "continuous_q nl nx v = clip 0 1 ((v - nx) / (nl - nx))"

text \<open>
  Quantization of one region's mask against every schedule step; the result has one
  plane per step.
\<close>

definition quantize :: "string \<Rightarrow> real list \<Rightarrow> real list \<Rightarrow> plane \<Rightarrow> plane list" where
  "quantize mtype nls nxs m =
     (if mtype = ''discrete'' then
        map (\<lambda>nl. (\<lambda>y x. discrete_q nl (m y x))) nls
      else if mtype = ''semi-continuous'' then
        map (\<lambda>nl. (\<lambda>y x. discrete_q nl (m y x))) (butlast nls)
        @ map (\<lambda>(nl, nx). (\<lambda>y x. continuous_q nl nx (m y x)))
              (drop (length nls - 1) (zip nls nxs))
      else if mtype = ''continuous'' then
        map (\<lambda>(nl, nx). (\<lambda>y x. continuous_q nl nx (m y x))) (zip nls nxs)
      else map (\<lambda>nl. m) nls)"

text \<open>\<open>F.interpolate(..., mode='nearest')\<close> from \<open>(H, W)\<close> to \<open>(h, w)\<close>.\<close>

definition interpolate_nearest :: "mask_ops \<Rightarrow> nat \<Rightarrow> nat \<Rightarrow> nat \<Rightarrow> nat \<Rightarrow> plane \<Rightarrow> plane" where
  "interpolate_nearest ops H W h w m = (\<lambda>y x. m (nearest_src ops H h y) (nearest_src ops W w x))"

fun chunks :: "nat \<Rightarrow> nat \<Rightarrow> 'a list \<Rightarrow> 'a list list" where
  "chunks 0 k xs = []"
| "chunks (Suc p) k xs = take k xs # chunks p k (drop k xs)"

text \<open>\<open>rearrange(x, '(p t) () h w -> p t () h w', p=p)\<close>.\<close>

definition regroup :: "nat \<Rightarrow> 'a list \<Rightarrow> error + 'a list list" where
  "regroup p xs =
     (if p = 0 \<or> \<not> p dvd length xs then Inl ShapeError
      else Inr (chunks p (length xs div p) xs))"

text \<open>
  \<open>process_mask\<close>. \<open>F.interpolate\<close> raises for an output size of zero, which the
  bilinear resize meets when \<open>height\<close> or \<open>width\<close> is 0 and the nearest resize when
  either is smaller than \<open>vae_scale_factor\<close>.
\<close>

definition process_mask ::
  "mask_ops \<Rightarrow> pipeline \<Rightarrow> masks_arg \<Rightarrow> per_region option \<Rightarrow> per_region option \<Rightarrow> nat \<Rightarrow> nat
     \<Rightarrow> bool \<Rightarrow> real list option \<Rightarrow> real option
     \<Rightarrow> error + (plane list list \<times> plane list \<times> real list)" where
  "process_mask ops self masks strength std height width use_boolean_mask timesteps'
       preprocess_mask_cover_alpha =
     (case masks_to_tensor use_boolean_mask masks of
        Inl e \<Rightarrow> Inl e
      | Inr masks \<Rightarrow>
          if height = 0 \<or> width = 0 then Inl (RuntimeError ''interpolate'') else
          let masks = map (interpolate_bilinear ops height width) masks;
              masks = overlap_decay self preprocess_mask_cover_alpha masks;
              (nls, nxs) = mask_noise_lvs self timesteps';
              std = per_region_list (default_mask_std self) std (length masks);
              strength = per_region_list (default_mask_strength self) strength (length masks);
              blur = (\<exists>s \<in> set std. s > 0);
              std = (if blur then map (\<lambda>s. if s > 0 then s else 1 / 100000) std else std);
              masks = (if blur then gaussian_lowpass ops masks std else masks);
              masks_blurred = masks
          in case bcast2 (\<lambda>m s. (\<lambda>y x. m y x * s)) masks strength of
               Inl e \<Rightarrow> Inl e
             | Inr masks \<Rightarrow>
                 let masks = map (quantize (mask_type self) nls nxs) masks;
                     h = height div vae_scale_factor self;
                     w = width div vae_scale_factor self
                 in if h = 0 \<or> w = 0 then Inl (RuntimeError ''interpolate'') else
                    let masks = map (interpolate_nearest ops height width h w) (concat masks)
                    in case regroup (length std) masks of
                         Inl e \<Rightarrow> Inl e
                       | Inr masks \<Rightarrow> Inr (masks, masks_blurred, std))"

section \<open>Autoencoder wrappers and the white background\<close>

text \<open>
  The autoencoder is external. \<open>vae_encode k img\<close> is the latent that the \<open>k\<close>-th call
  of \<open>vae.encode\<close> in the life of the pipeline samples for the image \<open>img\<close>; the
  pipeline counts these calls in \<open>encode_calls\<close>.
\<close>

definition encode_imgs :: "(nat \<Rightarrow> shaped \<Rightarrow> shaped) \<Rightarrow> pipeline \<Rightarrow> shaped \<Rightarrow> shaped \<times> pipeline" where
  "encode_imgs vae_encode self imgs =
     (let imgs = imgs\<lparr>dat := (\<lambda>c y x. 2 * dat imgs c y x - 1)\<rparr>;
          enc = vae_encode (encode_calls self) imgs;
          latents = enc\<lparr>dat := (\<lambda>c y x. vae_scaling_factor self * dat enc c y x)\<rparr>
      in (latents, self\<lparr>encode_calls := encode_calls self + 1\<rparr>))"

definition decode_latents :: "(latent \<Rightarrow> latent) \<Rightarrow> pipeline \<Rightarrow> latent \<Rightarrow> latent" where
  "decode_latents vae_decode self latents =
     (let latents = (\<lambda>c y x. 1 / vae_scaling_factor self * latents c y x);
          imgs = vae_decode latents
      in (\<lambda>c y x. clip 0 1 (imgs c y x / 2 + 0.5)))"

text \<open>\<open>t[..., :a, :b]\<close> on a stored tensor.\<close>

definition crop :: "shaped \<Rightarrow> nat \<Rightarrow> nat \<Rightarrow> shaped" where
  "crop t a b = t\<lparr>rows := min a (rows t), cols := min b (cols t)\<rparr>"

definition get_white_background ::
  "(nat \<Rightarrow> shaped \<Rightarrow> shaped) \<Rightarrow> pipeline \<Rightarrow> nat \<Rightarrow> nat \<Rightarrow> shaped \<times> pipeline" where
  "get_white_background vae_encode self height width =
     (if (case white self of
            None \<Rightarrow> True
          | Some wh \<Rightarrow> rows wh < height \<or> cols wh < width)
      then
        let white' = \<lparr>rows = height, cols = width, dat = (\<lambda>c y x. 1)\<rparr>;
            (lat, self) = encode_imgs vae_encode self white';
            self = self\<lparr>white := Some lat\<rparr>
        in (lat, self)
      else
        (crop (the (white self)) (height div vae_scale_factor self)
              (width div vae_scale_factor self), self))"

section \<open>The generation call: arguments and collaborators\<close>

type_synonym embed = plane
type_synonym pooled = "nat \<Rightarrow> real"
type_synonym view = "nat \<times> nat \<times> nat \<times> nat"

datatype prompts_arg = PStr string | PList "string list"

datatype background_arg = BgTensor latent | BgImage pil_image

datatype call_result = Background "background_arg option" | Image latent

record text_embeds =
  te_prompt_embeds :: "embed list"
  te_negative_prompt_embeds :: "embed list option"
  te_pooled_prompt_embeds :: "pooled list"
  te_negative_pooled_prompt_embeds :: "pooled list option"

text \<open>
  The collaborators of the call that live outside this file: the scheduler tables, the
  autoencoder, the text encoder, the denoiser and its channel count, the captioner,
  \<open>F.interpolate\<close> in bicubic mode, the functions imported from \<open>util\<close>, and the
  random number generator (\<open>randn k\<close> is the \<open>k\<close>-th tensor drawn in the call).
  A call of the denoiser may raise, and its error ends the generation.
\<close>

record pipeline_ops =
  mops :: mask_ops
  sched_timesteps :: "nat \<Rightarrow> real list"
  sched_sigmas :: "nat \<Rightarrow> real list"
  vae_encode :: "nat \<Rightarrow> shaped \<Rightarrow> shaped"
  vae_decode :: "latent \<Rightarrow> latent"
  encode_prompt :: "string list \<Rightarrow> string list \<Rightarrow> bool \<Rightarrow> text_embeds"
  transformer :: "latent list \<Rightarrow> real \<Rightarrow> embed list \<Rightarrow> pooled list \<Rightarrow> error + latent list"
  in_channels :: nat
  i2t_caption :: "background_arg \<Rightarrow> string"
  interpolate_bicubic :: "nat \<Rightarrow> nat \<Rightarrow> latent \<Rightarrow> latent"
  get_panorama_views :: "nat \<Rightarrow> nat \<Rightarrow> nat \<Rightarrow> view list \<times> plane list"
  shift_to_mask_bbox_center :: "latent list \<Rightarrow> plane list \<Rightarrow> bool \<Rightarrow> latent list"
  blend :: "latent \<Rightarrow> latent \<Rightarrow> plane \<Rightarrow> latent"
  randn :: "nat \<Rightarrow> latent"

record call_args =
  arg_prompts :: "prompts_arg option"
  arg_negative_prompts :: prompts_arg
  arg_suffix :: "string option"
  arg_background :: "background_arg option"
  arg_background_prompt :: "string option"
  arg_background_negative_prompt :: string
  arg_height :: nat
  arg_width :: nat
  arg_num_inference_steps :: "nat option"
  arg_guidance_scale :: "real option"
  arg_prompt_strengths :: "per_region option"
  arg_masks :: "masks_arg option"
  arg_mask_strengths :: "per_region option"
  arg_mask_stds :: "per_region option"
  arg_use_boolean_mask :: bool
  arg_do_blend :: bool
  arg_tile_size :: nat
  arg_bootstrap_steps :: "int option"
  arg_boostrap_mix_steps :: "real option"
  arg_bootstrap_leak_sensitivity :: "real option"
  arg_preprocess_mask_cover_alpha :: "real option"
  arg_guidance_rescale :: real
  arg_output_type :: string
  arg_joint_attention_kwargs :: "(string \<times> string) list option"
  arg_clip_skip :: "int option"

text \<open>Sequencing of computations that may raise.\<close>

definition bind_err :: "error + 'a \<Rightarrow> ('a \<Rightarrow> error + 'b) \<Rightarrow> error + 'b" where
  "bind_err m f = (case m of Inl e \<Rightarrow> Inl e | Inr v \<Rightarrow> f v)"

definition get_text_prompts :: "pipeline_ops \<Rightarrow> pipeline \<Rightarrow> background_arg \<Rightarrow> string" where
  "get_text_prompts ops self img = (if has_i2t self then i2t_caption ops img else [])"

fun str_nat :: "nat \<Rightarrow> string" where
  "str_nat n =
     (if n < 10 then [char_of (48 + n)] else str_nat (n div 10) @ [char_of (48 + n mod 10)])"

definition prompts_len :: "prompts_arg \<Rightarrow> nat" where
  "prompts_len p = (case p of PStr s \<Rightarrow> length s | PList l \<Rightarrow> length l)"

definition prompts_list :: "prompts_arg \<Rightarrow> string list" where
  "prompts_list p = (case p of PStr s \<Rightarrow> [s] | PList l \<Rightarrow> l)"

definition masks_len :: "masks_arg \<Rightarrow> nat" where
  "masks_len m = (case m of MImage _ \<Rightarrow> 1 | MList l \<Rightarrow> length l | MTensor t \<Rightarrow> length t)"

section \<open>The generation call: simplest cases, validation, embeddings\<close>

text \<open>
  The first branch of \<open>__call__\<close>. \<open>Some r\<close> is an early return (or raise) with \<open>r\<close>;
  \<open>None\<close> means that the call goes on. The name \<open>sample\<close> is bound nowhere in the module.
\<close>

definition simplest_cases :: "call_args \<Rightarrow> (error + call_result) option" where
  "simplest_cases a =
     (if (case arg_prompts a of None \<Rightarrow> True | Some p \<Rightarrow> prompts_len p = 0) then
        (if arg_background a = None \<and> arg_background_prompt a \<noteq> None
         then Some (Inl (NameError ''sample''))
         else Some (Inr (Background (arg_background a))))
      else if (case arg_masks a of None \<Rightarrow> True | Some (MList l) \<Rightarrow> l = [] | Some _ \<Rightarrow> False)
      then Some (Inl (NameError ''sample''))
      else None)"

definition prepare_generation ::
  "pipeline_ops \<Rightarrow> pipeline \<Rightarrow> call_args \<Rightarrow> error + (pipeline \<times> real \<times> bool)" where
  "prepare_generation ops self a =
     bind_err (case arg_num_inference_steps a of
            None \<Rightarrow> Inr self
          | Some n \<Rightarrow> prepare_flashflowmatch_schedule (sched_timesteps ops) (sched_sigmas ops) self
                        (Some (map int [0..<n])) (Some n))
       (\<lambda>self.
          let guidance_scale = (case arg_guidance_scale a of
                                  None \<Rightarrow> default_guidance_scale self | Some g \<Rightarrow> g);
              self = self\<lparr>pipe_guidance_scale := guidance_scale,
                          pipe_clip_skip := arg_clip_skip a,
                          pipe_joint_attention_kwargs := arg_joint_attention_kwargs a,
                          pipe_interrupt := False\<rparr>;
              do_classifier_free_guidance = (guidance_scale > 1.0)
          in Inr (self, guidance_scale, do_classifier_free_guidance))"

text \<open>The two assertions on the numbers of prompts, masks and negative prompts.\<close>

definition validate_counts :: "nat \<Rightarrow> nat \<Rightarrow> nat \<Rightarrow> error + unit" where
  "validate_counts num_masks num_prompts num_nprompts =
     (if \<not> (num_prompts = num_masks \<or> num_prompts = 1) then
        Inl (AssertionError (''The number of prompts '' @ str_nat num_prompts
               @ '' should match the number of masks '' @ str_nat num_masks @ ''!''))
      else if \<not> (num_nprompts = num_prompts \<or> num_nprompts = 1) then
        Inl (AssertionError (''The number of negative prompts '' @ str_nat num_nprompts
               @ '' should match the number of prompts '' @ str_nat num_prompts @ ''!''))
      else Inr ())"

text \<open>\<open>torch.lerp(b, f, s)\<close> with \<open>b\<close> of batch size one.\<close>

definition lerp_embeds :: "embed list \<Rightarrow> embed list \<Rightarrow> real list \<Rightarrow> error + embed list" where
  "lerp_embeds be fe s =
     (case be of
        [b] \<Rightarrow> bcast2 (\<lambda>f w. (\<lambda>i j. b i j + w * (f i j - b i j))) fe s
      | _ \<Rightarrow> Inl ShapeError)"

definition lerp_pooled :: "pooled list \<Rightarrow> pooled list \<Rightarrow> real list \<Rightarrow> error + pooled list" where
  "lerp_pooled be fe s =
     (case be of
        [b] \<Rightarrow> bcast2 (\<lambda>f w. (\<lambda>i. b i + w * (f i - b i))) fe s
      | _ \<Rightarrow> Inl ShapeError)"

text \<open>\<open>x.repeat(n, 1, ...)\<close> along the batch axis.\<close>

definition repeat_batch :: "nat \<Rightarrow> 'a list \<Rightarrow> 'a list" where
  "repeat_batch n xs = concat (replicate n xs)"

text \<open>
  The blending of the foreground embeddings with the background embeddings when a
  background exists. The number of prompt strengths is asserted for a list or tuple
  only; a tensor goes to \<open>torch.lerp\<close> as it is and is broadcast there. The assertion
  \<open>fe.shape == num_prompts\<close> compares a shape with a number and is false whenever it is
  reached.
\<close>

definition blend_background_embeds ::
  "pipeline \<Rightarrow> per_region option \<Rightarrow> nat \<Rightarrow> nat \<Rightarrow> text_embeds \<Rightarrow> error + text_embeds" where
  "blend_background_embeds self prompt_strengths num_prompts num_nprompts te =
     bind_err (case (case prompt_strengths of None \<Rightarrow> Scalar (default_prompt_strength self) | Some v \<Rightarrow> v) of
            Scalar v \<Rightarrow> Inr (replicate num_prompts v)
          | PerRegion l \<Rightarrow>
              (if length l = num_prompts then Inr l
               else Inl (AssertionError (''The number of prompt strengths '' @ str_nat (length l)
                      @ '' should match the number of prompts '' @ str_nat num_prompts @ ''!'')))
          | PerTensor l \<Rightarrow> Inr l)
       (\<lambda>s.
     bind_err (lerp_embeds (take 1 (te_prompt_embeds te)) (drop 1 (te_prompt_embeds te)) s)
       (\<lambda>prompt_embeds.
     bind_err (case te_negative_prompt_embeds te of
            None \<Rightarrow> Inr None
          | Some n \<Rightarrow>
              (if num_prompts > num_nprompts then Inl (AssertionError [])
               else bind_err (lerp_embeds (take 1 n) (drop 1 n) s) (\<lambda>r. Inr (Some r))))
       (\<lambda>negative_prompt_embeds.
     bind_err (lerp_pooled (take 1 (te_pooled_prompt_embeds te)) (drop 1 (te_pooled_prompt_embeds te)) s)
       (\<lambda>pooled_prompt_embeds.
     bind_err (case te_negative_pooled_prompt_embeds te of
            None \<Rightarrow> Inr None
          | Some n \<Rightarrow>
              (if num_prompts > num_nprompts then Inl (AssertionError [])
               else bind_err (lerp_pooled (take 1 n) (drop 1 n) s) (\<lambda>r. Inr (Some r))))
       (\<lambda>negative_pooled_prompt_embeds.
          Inr \<lparr>te_prompt_embeds = prompt_embeds,
               te_negative_prompt_embeds = negative_prompt_embeds,
               te_pooled_prompt_embeds = pooled_prompt_embeds,
               te_negative_pooled_prompt_embeds = negative_pooled_prompt_embeds\<rparr>)))))"

text \<open>
  The broadcast of a single negative prompt over the prompts when no background exists.
\<close>

definition broadcast_negative :: "nat \<Rightarrow> nat \<Rightarrow> text_embeds \<Rightarrow> error + text_embeds" where
  "broadcast_negative num_prompts num_nprompts te =
     (case te_negative_prompt_embeds te of
        None \<Rightarrow> Inr te
      | Some n \<Rightarrow>
          if num_prompts > num_nprompts then
            if \<not> (length n = 1 \<and> length (te_prompt_embeds te) = num_prompts)
            then Inl (AssertionError [])
            else (case te_negative_pooled_prompt_embeds te of
                    None \<Rightarrow> Inl (AttributeError ''shape'')
                  | Some np \<Rightarrow>
                      if \<not> (length np = 1 \<and> length (te_pooled_prompt_embeds te) = num_prompts)
                      then Inl (AssertionError [])
                      else Inr (te\<lparr>te_negative_prompt_embeds := Some (repeat_batch num_prompts n),
                                   te_negative_pooled_prompt_embeds :=
                                     Some (repeat_batch num_prompts np)\<rparr>))
          else Inr te)"

text \<open>
  The broadcast of a single prompt over the masks. \<open>masks\<close> is the argument of the call
  (an image has been wrapped into a list by now); only a tensor has a \<open>shape\<close>.
\<close>

definition broadcast_prompts :: "masks_arg \<Rightarrow> nat \<Rightarrow> nat \<Rightarrow> text_embeds \<Rightarrow> error + text_embeds" where
  "broadcast_prompts masks num_masks num_prompts te =
     (if num_masks > num_prompts then
        (case masks of
           MTensor t \<Rightarrow>
             if \<not> (length t = num_masks \<and> num_prompts = 1) then Inl (AssertionError [])
             else Inr \<lparr>te_prompt_embeds = repeat_batch num_masks (te_prompt_embeds te),
                       te_negative_prompt_embeds =
                         map_option (repeat_batch num_masks) (te_negative_prompt_embeds te),
                       te_pooled_prompt_embeds = repeat_batch num_masks (te_pooled_prompt_embeds te),
                       te_negative_pooled_prompt_embeds =
                         map_option (repeat_batch num_masks) (te_negative_pooled_prompt_embeds te)\<rparr>
         | _ \<Rightarrow> Inl (AttributeError ''shape''))
      else Inr te)"

text \<open>The concatenation of negative and positive embeddings under guidance.\<close>

definition cat_guidance :: "bool \<Rightarrow> text_embeds \<Rightarrow> error + (embed list \<times> pooled list)" where
  "cat_guidance do_classifier_free_guidance te =
     (if do_classifier_free_guidance then
        (case (te_negative_prompt_embeds te, te_negative_pooled_prompt_embeds te) of
           (Some n, Some np) \<Rightarrow> Inr (n @ te_prompt_embeds te, np @ te_pooled_prompt_embeds te)
         | _ \<Rightarrow> Inl (TypeError ''cat''))
      else Inr (te_prompt_embeds te, te_pooled_prompt_embeds te))"

definition prepare_embeds ::
  "pipeline \<Rightarrow> call_args \<Rightarrow> masks_arg \<Rightarrow> bool \<Rightarrow> bool \<Rightarrow> nat \<Rightarrow> nat \<Rightarrow> nat \<Rightarrow> text_embeds
     \<Rightarrow> error + (embed list \<times> pooled list)" where
  "prepare_embeds self a masks has_background do_classifier_free_guidance
       num_masks num_prompts num_nprompts te =
     bind_err (if has_background
          then blend_background_embeds self (arg_prompt_strengths a) num_prompts num_nprompts te
          else broadcast_negative num_prompts num_nprompts te)
       (\<lambda>te. bind_err (broadcast_prompts masks num_masks num_prompts te)
                 (cat_guidance do_classifier_free_guidance))"

section \<open>The generation call: the compositor\<close>

text \<open>The local variables of \<open>__call__\<close> that the denoising loop reads.\<close>

record loop_ctx =
  c_num_masks :: nat
  c_fg_masks :: "plane list list"
  c_has_background :: bool
  c_noise_bg_latents :: "latent list"
  c_white :: "shaped option"
  c_noise :: latent
  c_views :: "view list"
  c_tile_masks :: "plane list"
  c_prompt_embeds :: "embed list"
  c_pooled_prompt_embeds :: "pooled list"
  c_do_classifier_free_guidance :: bool
  c_guidance_scale :: real
  c_guidance_rescale :: real
  c_bootstrap_steps :: int
  c_boostrap_mix_steps :: real
  c_bootstrap_leak_sensitivity :: real
  c_h :: nat
  c_w :: nat

text \<open>\<open>t.sum()\<close> over a plane of the given height and width.\<close>

definition sum_pixels :: "nat \<Rightarrow> nat \<Rightarrow> plane \<Rightarrow> real" where
  "sum_pixels hh ww f = sum_list (map (\<lambda>y. sum_list (map (f y) [0..<ww])) [0..<hh])"

text \<open>\<open>(1 - fg_masks.sum(dim=0)).clip_(0, 1)\<close>, one plane per step.\<close>

definition background_masks :: "plane list list \<Rightarrow> plane list" where
  "background_masks fg_masks =
     map (\<lambda>t. (\<lambda>y x. clip 0 1 (1 - sum_list (map (\<lambda>row. (row ! t) y x) fg_masks))))
         [0..<length (hd fg_masks)]"

text \<open>\<open>t[..., h_start:h_end, w_start:w_end]\<close>, in tile coordinates.\<close>

definition slice_plane :: "view \<Rightarrow> plane \<Rightarrow> plane" where
  "slice_plane v f = (case v of (h_start, h_end, w_start, w_end) \<Rightarrow>
     (\<lambda>y x. f (h_start + y) (w_start + x)))"

definition slice_latent :: "view \<Rightarrow> latent \<Rightarrow> latent" where
  "slice_latent v f = (case v of (h_start, h_end, w_start, w_end) \<Rightarrow>
     (\<lambda>c y x. f c (h_start + y) (w_start + x)))"

text \<open>\<open>acc[..., h_start:h_end, w_start:w_end] += t\<close> on a canvas of height \<open>h\<close> and width \<open>w\<close>.\<close>

definition paste_add :: "nat \<Rightarrow> nat \<Rightarrow> view \<Rightarrow> latent \<Rightarrow> latent \<Rightarrow> latent" where
  "paste_add h w v acc t = (case v of (h_start, h_end, w_start, w_end) \<Rightarrow>
     (\<lambda>c y x. if h_start \<le> y \<and> y < min h_end h \<and> w_start \<le> x \<and> x < min w_end w
               then acc c y x + t c (y - h_start) (x - w_start)
               else acc c y x))"

text \<open>\<open>x.sum(dim=0, keepdim=True)\<close> over the batch.\<close>

definition sum_latents :: "latent list \<Rightarrow> latent" where
  "sum_latents ls = (\<lambda>c y x. sum_list (map (\<lambda>l. l c y x) ls))"

definition broadcast_channels :: "plane \<Rightarrow> latent" where
  "broadcast_channels m = (\<lambda>c y x. m y x)"

text \<open>\<open>x.chunk(2)\<close>, unpacked into two names.\<close>

definition chunk2 :: "'a list \<Rightarrow> error + ('a list \<times> 'a list)" where
  "chunk2 xs =
     (let k = (length xs + 1) div 2
      in if length xs \<le> 1 then Inl (ValueError ''unpack'') else Inr (take k xs, drop k xs))"

text \<open>
  One call of the denoiser and the guidance rule. The name \<open>rescale_noise_cfg\<close> is
  bound nowhere in the module.
\<close>

definition guided_noise_pred ::
  "pipeline_ops \<Rightarrow> bool \<Rightarrow> real \<Rightarrow> real \<Rightarrow> latent list \<Rightarrow> real \<Rightarrow> embed list \<Rightarrow> pooled list
     \<Rightarrow> error + latent list" where
  "guided_noise_pred ops do_classifier_free_guidance guidance_scale guidance_rescale
       latent' t prompt_embeds pooled_prompt_embeds =
     (let latent_model_input = (if do_classifier_free_guidance then latent' @ latent' else latent')
      in bind_err (transformer ops latent_model_input t prompt_embeds pooled_prompt_embeds)
           (\<lambda>noise_pred.
         if do_classifier_free_guidance then
           bind_err (chunk2 noise_pred) (\<lambda>(noise_pred_uncond, noise_pred_cond).
           bind_err (bcast2 (\<lambda>u c. (\<lambda>ch y x. c ch y x - u ch y x)) noise_pred_uncond noise_pred_cond)
             (\<lambda>diff.
           bind_err (bcast2 (\<lambda>u d. (\<lambda>ch y x. u ch y x + guidance_scale * d ch y x))
                       noise_pred_uncond diff)
             (\<lambda>noise_pred.
                if guidance_rescale > 0.0 then Inl (NameError ''rescale_noise_cfg'')
                else Inr noise_pred)))
         else Inr noise_pred))"

definition sigmoid :: "real \<Rightarrow> real" where
  "sigmoid v = 1 / (1 + exp (- v))"

text \<open>The bootstrap stage before the denoiser: tight background and centering.\<close>

definition bootstrap_before ::
  "pipeline_ops \<Rightarrow> pipeline \<Rightarrow> loop_ctx \<Rightarrow> nat \<Rightarrow> view \<Rightarrow> plane list \<Rightarrow> latent list
     \<Rightarrow> error + (latent list \<times> latent list)" where
  "bootstrap_before ops self L i v fg_mask' latent' =
     (let mix_ratio = min 1 (max 0 (c_boostrap_mix_steps L - real i));
          bg_latent' = (if c_has_background L
                        then [slice_latent v (c_noise_bg_latents L ! i)]
                        else take 1 latent');
          white' = slice_latent v (dat (the (c_white L)));
          white' = scheduler_add_noise self (c_noise L) white' (Some (c_noise L)) (int i)
      in bind_err (bcast2 (\<lambda>wh b. (\<lambda>c y x. mix_ratio * wh c y x + (1.0 - mix_ratio) * b c y x))
                     [white'] bg_latent')
           (\<lambda>bg_latent'.
         bind_err (bcast2 (\<lambda>m b. (\<lambda>c y x. (1.0 - m y x) * b c y x)) fg_mask' bg_latent')
           (\<lambda>outside.
         bind_err (bcast2 (\<lambda>m l. (\<lambda>c y x. m y x * l c y x)) fg_mask' latent')
           (\<lambda>inside.
         bind_err (bcast2 (\<lambda>p q. (\<lambda>c y x. p c y x + q c y x)) outside inside)
           (\<lambda>latent'.
              Inr (shift_to_mask_bbox_center ops latent' fg_mask' True, bg_latent'))))))"

text \<open>
  The bootstrap stage after the denoiser: uncentering and leakage removal, for a leak
  sensitivity that is not zero (with sensitivity zero the source divides by zero).
\<close>

definition bootstrap_after ::
  "pipeline_ops \<Rightarrow> loop_ctx \<Rightarrow> plane list \<Rightarrow> latent list \<Rightarrow> latent list
     \<Rightarrow> error + (plane list \<times> latent list)" where
  "bootstrap_after ops L fg_mask' latent' bg_latent' =
     (let latent' = shift_to_mask_bbox_center ops latent' fg_mask' False
      in bind_err (bcast2 (\<lambda>l b. (\<lambda>y x. sum_list (map (\<lambda>c. (l c y x - b c y x)\<^sup>2)
                                            [0..<in_channels ops]) / real (in_channels ops)))
                     latent' bg_latent')
           (\<lambda>leak.
              let leak_sigmoid =
                    map (\<lambda>lk. (\<lambda>y x. sigmoid (lk y x / c_bootstrap_leak_sensitivity L) * 2 - 1)) leak
              in bind_err (bcast2 (\<lambda>m s. (\<lambda>y x. m y x * s y x)) fg_mask' leak_sigmoid)
                   (\<lambda>fg_mask'. Inr (fg_mask', latent'))))"

text \<open>
  The body of the loop over the views, up to the mixing: the weighted mask and the
  denoised latent of every region in tile \<open>j\<close>.
\<close>

definition denoise_view ::
  "pipeline_ops \<Rightarrow> pipeline \<Rightarrow> loop_ctx \<Rightarrow> nat \<Rightarrow> real \<Rightarrow> plane list \<Rightarrow> latent \<Rightarrow> nat \<Rightarrow> view
     \<Rightarrow> error + (plane list \<times> latent list)" where
  "denoise_view ops self L i t fg_mask latent j v =
     (let fg_mask' = map (slice_plane v) fg_mask;
          latent' = repeat_batch (c_num_masks L) [slice_latent v latent];
          boot = (int i < c_bootstrap_steps L)
      in bind_err (if boot then bootstrap_before ops self L i v fg_mask' latent'
                   else Inr (latent', []))
           (\<lambda>(latent', bg_latent').
         bind_err (guided_noise_pred ops (c_do_classifier_free_guidance L) (c_guidance_scale L)
                     (c_guidance_rescale L) latent' t (c_prompt_embeds L)
                     (c_pooled_prompt_embeds L))
           (\<lambda>noise_pred.
         bind_err (bcast2 (\<lambda>n l. scheduler_step self n i l) noise_pred latent')
           (\<lambda>latent'.
         bind_err (if boot then bootstrap_after ops L fg_mask' latent' bg_latent'
                   else Inr (fg_mask', latent'))
           (\<lambda>(fg_mask', latent').
              if j < length (c_tile_masks L)
              then Inr (map (\<lambda>m. (\<lambda>y x. m y x * slice_plane v (c_tile_masks L ! j) y x)) fg_mask',
                        latent')
              else Inl ShapeError)))))"

text \<open>The mixing of one view into the accumulators \<open>value\<close> and \<open>count_all\<close>.\<close>

definition mix_view ::
  "loop_ctx \<Rightarrow> view \<Rightarrow> plane list \<Rightarrow> latent list \<Rightarrow> latent \<times> latent \<Rightarrow> error + (latent \<times> latent)" where
  "mix_view L v fg_mask' latent' acc =
     (case acc of (val, count_all) \<Rightarrow>
        bind_err (bcast2 (\<lambda>m l. (\<lambda>c y x. m y x * l c y x)) fg_mask' latent')
          (\<lambda>weighted.
             Inr (paste_add (c_h L) (c_w L) v val (sum_latents weighted),
                  paste_add (c_h L) (c_w L) v count_all
                    (broadcast_channels (sum_planes fg_mask')))))"

fun mix_views ::
  "pipeline_ops \<Rightarrow> pipeline \<Rightarrow> loop_ctx \<Rightarrow> nat \<Rightarrow> real \<Rightarrow> plane list \<Rightarrow> latent
     \<Rightarrow> (nat \<times> view) list \<Rightarrow> latent \<times> latent \<Rightarrow> error + (latent \<times> latent)" where
  "mix_views ops self L i t fg_mask latent [] acc = Inr acc"
| "mix_views ops self L i t fg_mask latent ((j, v) # rest) acc =
     bind_err (denoise_view ops self L i t fg_mask latent j v)
       (\<lambda>(fg_mask', latent').
          bind_err (mix_view L v fg_mask' latent' acc)
            (mix_views ops self L i t fg_mask latent rest))"

text \<open>
  The quotient of two tensor elements. The quotient by zero is an infinity or NaN, no
  real number: \<open>None\<close>.
\<close>

definition torch_div :: "real \<Rightarrow> real \<Rightarrow> real option" where
  "torch_div a b = (if b = 0 then None else Some (a / b))"

text \<open>
  \<open>torch.where(condition, a, b)\<close> at one element. Both tensors are computed before the
  selection; the element that is not selected is dropped.
\<close>

definition torch_where :: "bool \<Rightarrow> 'a \<Rightarrow> 'a \<Rightarrow> 'a" where
  "torch_where cond a b = (if cond then a else b)"

text \<open>
  \<open>torch.where(count_all > 0, value / count_all, value)\<close>: the merged latent, at every
  element a real number or \<open>None\<close>.
\<close>

definition merge_latent :: "latent \<Rightarrow> latent \<Rightarrow> nat \<Rightarrow> nat \<Rightarrow> nat \<Rightarrow> real option" where
  "merge_latent val count_all =
     (\<lambda>c y x. torch_where (count_all c y x > 0)
                (torch_div (val c y x) (count_all c y x)) (Some (val c y x)))"

text \<open>
  The accumulated weight, the accumulated value and the merged value at one element
  after the mixing of a step, when the mixing has not raised.
\<close>

definition merged_pixel ::
  "error + (latent \<times> latent) \<Rightarrow> nat \<Rightarrow> nat \<Rightarrow> nat \<Rightarrow> (real \<times> real \<times> real option) option" where
  "merged_pixel acc c y x =
     (case acc of
        Inl e \<Rightarrow> None
      | Inr (val, count_all) \<Rightarrow>
          Some (count_all c y x, val c y x, merge_latent val count_all c y x))"

text \<open>
  One step of the loop over the timesteps; \<open>latent\<close> is the canvas before the step. The
  merged latent is a real number at every element (\<open>merge_latent_finite\<close> below), which
  \<open>the\<close> reads.
\<close>

definition compositor_step ::
  "pipeline_ops \<Rightarrow> pipeline \<Rightarrow> loop_ctx \<Rightarrow> nat \<Rightarrow> real \<Rightarrow> latent \<Rightarrow> error + latent" where
  "compositor_step ops self L i t latent =
     (if pipe_interrupt self then Inr latent
      else if \<exists>row \<in> set (c_fg_masks L). length row \<le> i then Inl IndexError
      else
        let fg_mask = map (\<lambda>row. row ! i) (c_fg_masks L)
        in bind_err (mix_views ops self L i t fg_mask latent
                       (zip [0..<length (c_views L)] (c_views L))
                       (\<lambda>c y x. 0, \<lambda>c y x. 0))
             (\<lambda>(val, count_all).
                let latent = (\<lambda>c y x. the (merge_latent val count_all c y x));
                    bg_mask = (\<lambda>c y x. clip 0 1 (1 - count_all c y x));
                    latent = (if c_has_background L
                              then (\<lambda>c y x. (1 - bg_mask c y x) * latent c y x
                                     + bg_mask c y x * (c_noise_bg_latents L ! (i + 1)) c y x)
                              else latent)
                in Inr (if int i < int (length (timesteps self)) - 1
                        then scheduler_add_noise self (randn ops (2 + i)) latent None (int i + 1)
                        else latent)))"

fun denoising_loop ::
  "pipeline_ops \<Rightarrow> pipeline \<Rightarrow> loop_ctx \<Rightarrow> (nat \<times> real) list \<Rightarrow> latent \<Rightarrow> error + latent" where
  "denoising_loop ops self L [] latent = Inr latent"
| "denoising_loop ops self L ((i, t) # rest) latent =
     bind_err (compositor_step ops self L i t latent) (denoising_loop ops self L rest)"

section \<open>The generation call: the main routine\<close>

text \<open>
  The background stage. The result is the mask tensor, the prompts, the negative
  prompts, \<open>has_background\<close>, the background latent, the resized background and the
  pipeline.
\<close>

definition prepare_background ::
  "pipeline_ops \<Rightarrow> pipeline \<Rightarrow> call_args \<Rightarrow> plane list list \<Rightarrow> plane list \<Rightarrow> bool
     \<Rightarrow> string list \<Rightarrow> string list
     \<Rightarrow> plane list list \<times> string list \<times> string list \<times> bool \<times> shaped option \<times> latent option
        \<times> pipeline" where
  "prepare_background ops self a fg_masks bg_masks has_background prompts negative_prompts =
     (if has_background then
        if arg_background a = None \<and> arg_background_prompt a \<noteq> None then
          let background_prompt = the (arg_background_prompt a);
              fg_masks = bg_masks # fg_masks;
              prompts = (case arg_suffix a of
                           None \<Rightarrow> prompts
                         | Some suffix \<Rightarrow> map (\<lambda>p. p @ suffix @ background_prompt) prompts);
              prompts = background_prompt # prompts;
              negative_prompts = arg_background_negative_prompt a # negative_prompts
          in (fg_masks, prompts, negative_prompts, False, None, None, self)
        else
          let white_case = (arg_background a = None \<and> arg_background_prompt a = None);
              background = (if white_case then BgTensor (\<lambda>c y x. 1) else the (arg_background a));
              background_prompt =
                (if white_case then ''simple white background image''
                 else if arg_background_prompt a = None then get_text_prompts ops self background
                 else the (arg_background_prompt a));
              prompts = (case arg_suffix a of
                           None \<Rightarrow> prompts
                         | Some suffix \<Rightarrow> map (\<lambda>p. p @ suffix @ background_prompt) prompts);
              prompts = background_prompt # prompts;
              negative_prompts = arg_background_negative_prompt a # negative_prompts;
              background = (case background of BgImage im \<Rightarrow> to_tensor im | BgTensor t \<Rightarrow> t);
              background = interpolate_bicubic ops (arg_height a) (arg_width a) background;
              (bg_latent, self) = encode_imgs (vae_encode ops) self
                  \<lparr>rows = arg_height a, cols = arg_width a, dat = background\<rparr>
          in (fg_masks, prompts, negative_prompts, True, Some bg_latent, Some background, self)
      else (fg_masks, prompts, negative_prompts, False, None, None, self))"

text \<open>The decoding of the final latent and the blending with the background.\<close>

definition finish_image ::
  "pipeline_ops \<Rightarrow> pipeline \<Rightarrow> call_args \<Rightarrow> bool \<Rightarrow> plane list \<Rightarrow> latent option \<Rightarrow> latent
     \<Rightarrow> latent" where
  "finish_image ops self a has_background masks_g background latent =
     (let img = (if arg_output_type a \<noteq> ''latent''
                 then vae_decode ops
                        (\<lambda>c y x. latent c y x / vae_scaling_factor self + vae_shift_factor self)
                 else latent);
          img = (\<lambda>c y x. clip (- 1) 1 (img c y x) * 0.5 + 0.5)
      in if has_background \<and> arg_do_blend a
         then blend ops img (the background) (\<lambda>y x. clip 0 1 (sum_planes masks_g y x))
         else img)"

definition generate ::
  "pipeline_ops \<Rightarrow> pipeline \<Rightarrow> call_args \<Rightarrow> prompts_arg \<Rightarrow> masks_arg
     \<Rightarrow> error + (call_result \<times> pipeline)" where
  "generate ops self a prompts masks =
     bind_err (prepare_generation ops self a) (\<lambda>(self, guidance_scale, do_classifier_free_guidance).
       let prompts = prompts_list prompts;
           negative_prompts = prompts_list (arg_negative_prompts a);
           num_masks = masks_len masks;
           num_prompts = length prompts;
           num_nprompts = length negative_prompts;
           height = arg_height a;
           width = arg_width a
       in
     bind_err (validate_counts num_masks num_prompts num_nprompts) (\<lambda>_.
     bind_err (process_mask (mops ops) self masks (arg_mask_strengths a) (arg_mask_stds a)
                 height width (arg_use_boolean_mask a) (Some (timesteps self))
                 (arg_preprocess_mask_cover_alpha a)) (\<lambda>(fg_masks, masks_g, std).
       let bg_masks = background_masks fg_masks;
           has_background =
             (sum_list (map (sum_pixels (height div vae_scale_factor self)
                               (width div vae_scale_factor self)) bg_masks) > 0);
           h = (height + vae_scale_factor self - 1) div vae_scale_factor self;
           w = (width + vae_scale_factor self - 1) div vae_scale_factor self;
           (fg_masks, prompts, negative_prompts, has_background, bg_latent, background, self) =
              prepare_background ops self a fg_masks bg_masks has_background prompts negative_prompts;
           bootstrap_steps = (case arg_bootstrap_steps a of
                                None \<Rightarrow> default_bootstrap_steps self | Some b \<Rightarrow> b);
           boostrap_mix_steps = (case arg_boostrap_mix_steps a of
                                None \<Rightarrow> default_boostrap_mix_steps self | Some b \<Rightarrow> b);
           bootstrap_leak_sensitivity = (case arg_bootstrap_leak_sensitivity a of
                                None \<Rightarrow> default_bootstrap_leak_sensitivity self | Some b \<Rightarrow> b);
           (white', self) = (if bootstrap_steps > 0
                             then (case get_white_background (vae_encode ops) self height width of
                                     (wh, self) \<Rightarrow> (Some wh, self))
                             else (None, self));
           te = encode_prompt ops prompts negative_prompts do_classifier_free_guidance
       in
     bind_err (prepare_embeds self a masks has_background do_classifier_free_guidance
                 num_masks num_prompts num_nprompts te) (\<lambda>(prompt_embeds, pooled_prompt_embeds).
     bind_err (if timesteps self = [] then Inl IndexError else Inr (hd (timesteps self))) (\<lambda>t0.
       let noise = randn ops 0;
           seeded = (t0 < 999 \<and> has_background);
           latent = (if seeded
                     then scheduler_add_noise self noise (dat (the bg_latent)) (Some noise) 0
                     else randn ops 1);
           noise = (if seeded then noise else randn ops 1);
           noise_bg_latents =
             (if has_background
              then map (\<lambda>i. scheduler_add_noise self noise (dat (the bg_latent)) (Some noise) (int i))
                       [0..<length (timesteps self)] @ [dat (the bg_latent)]
              else []);
           (views, tile_masks) =
             (if height > arg_tile_size a \<or> width > arg_tile_size a
              then get_panorama_views ops h w
                     ((arg_tile_size a + vae_scale_factor self - 1) div vae_scale_factor self)
              else ([(0, h, 0, w)], [\<lambda>y x. 1]));
           L = \<lparr>c_num_masks = num_masks, c_fg_masks = fg_masks,
                c_has_background = has_background, c_noise_bg_latents = noise_bg_latents,
                c_white = white', c_noise = noise, c_views = views, c_tile_masks = tile_masks,
                c_prompt_embeds = prompt_embeds, c_pooled_prompt_embeds = pooled_prompt_embeds,
                c_do_classifier_free_guidance = do_classifier_free_guidance,
                c_guidance_scale = guidance_scale,
                c_guidance_rescale = arg_guidance_rescale a,
                c_bootstrap_steps = bootstrap_steps,
                c_boostrap_mix_steps = boostrap_mix_steps,
                c_bootstrap_leak_sensitivity = bootstrap_leak_sensitivity,
                c_h = h, c_w = w\<rparr>
       in
     bind_err (denoising_loop ops self L
                 (zip [0..<length (timesteps self)] (timesteps self)) latent) (\<lambda>latent.
       Inr (Image (finish_image ops self a has_background masks_g background latent),
            self)))))))"

text \<open>\<open>__call__\<close>: the result of the call and the pipeline after it, or the error raised.\<close>

definition call :: "pipeline_ops \<Rightarrow> pipeline \<Rightarrow> call_args \<Rightarrow> error + (call_result \<times> pipeline)" where
  "call ops self a =
     (case simplest_cases a of
        Some (Inl e) \<Rightarrow> Inl e
      | Some (Inr r) \<Rightarrow> Inr (r, self)
      | None \<Rightarrow> generate ops self a (the (arg_prompts a)) (the (arg_masks a)))"

text \<open>
  The invariant of the accumulators during the mixing: the weight is non-negative, and
  where it is zero the accumulated value is zero.
\<close>

definition acc_ok :: "latent \<times> latent \<Rightarrow> bool" where
  "acc_ok acc = (\<forall>c y x. 0 \<le> snd acc c y x \<and> (snd acc c y x = 0 \<longrightarrow> fst acc c y x = 0))"

section \<open>Concrete objects for evaluation\<close>

definition demo_pipeline :: pipeline where
  "demo_pipeline =
     \<lparr>default_mask_std = 1, default_mask_strength = 1, default_prompt_strength = 1,
      default_t_list = [0, 4, 12, 25, 37], default_bootstrap_steps = 1,
      default_boostrap_mix_steps = 1, default_bootstrap_leak_sensitivity = 0.2,
      default_preprocess_mask_cover_alpha = 0.3, default_num_inference_steps = 4,
      default_guidance_scale = 0, mask_type = ''discrete'', has_i2t = True,
      vae_scale_factor = 8, vae_scaling_factor = 1, vae_shift_factor = 0,
      timesteps = [750, 0], sigmas = [4 / 3, 3 / 4], sigmas_next = [3 / 4, 0],
      noise_lvs = [4 / 5, 3 / 5], next_noise_lvs = [3 / 5, 0],
      white = None, encode_calls = 0,
      pipe_guidance_scale = 0, pipe_clip_skip = None, pipe_joint_attention_kwargs = None,
      pipe_interrupt = False\<rparr>"

text \<open>
  Resizing that keeps the image as it is and a blur that does nothing: enough to run
  the preprocessing on small masks.
\<close>

definition demo_ops :: mask_ops where
  "demo_ops = \<lparr>interpolate_bilinear = (\<lambda>h w m. m), nearest_src = (\<lambda>n k i. i),
               gaussian_lowpass = (\<lambda>ms std. ms)\<rparr>"

definition full :: "real \<Rightarrow> plane" where
  "full v = (\<lambda>y x. v)"

text \<open>A mask that covers the first column only.\<close>

definition half :: plane where
  "half = (\<lambda>y x. if x = 0 then 1 else 0)"

definition full_latent :: "real \<Rightarrow> latent" where
  "full_latent v = (\<lambda>c y x. v)"

text \<open>
  An encoder with the call contract of the autoencoder: the latent is 8 times smaller
  than the image in each direction. Its values depend on the call, as samples do.
\<close>

definition demo_vae_encode :: "nat \<Rightarrow> shaped \<Rightarrow> shaped" where
  "demo_vae_encode k img = \<lparr>rows = rows img div 8, cols = cols img div 8, dat = full_latent (real k)\<rparr>"

text \<open>
  Collaborators for running the call on tiny inputs: each prompt is embedded as its
  length, the denoiser predicts the embedding of the prompt, and the functions of
  \<open>util\<close> do nothing.
\<close>

definition demo_encode_prompt :: "string list \<Rightarrow> string list \<Rightarrow> bool \<Rightarrow> text_embeds" where
  "demo_encode_prompt ps ns cfg =
     \<lparr>te_prompt_embeds = map (\<lambda>p. full (real (length p))) ps,
      te_negative_prompt_embeds =
        (if cfg then Some (map (\<lambda>p. full (- real (length p) - 1)) ns) else None),
      te_pooled_prompt_embeds = map (\<lambda>p. (\<lambda>i. real (length p))) ps,
      te_negative_pooled_prompt_embeds =
        (if cfg then Some (map (\<lambda>p. (\<lambda>i. - real (length p) - 1)) ns) else None)\<rparr>"

definition demo_transformer ::
  "latent list \<Rightarrow> real \<Rightarrow> embed list \<Rightarrow> pooled list \<Rightarrow> error + latent list" where
  "demo_transformer ls t es ps =
     (if length es = length ls \<and> length ps = length ls
      then Inr (map (\<lambda>e. full_latent (e 0 0)) es) else Inl ShapeError)"

definition demo_call_ops :: pipeline_ops where
  "demo_call_ops =
     \<lparr>mops = demo_ops,
      sched_timesteps = (\<lambda>n. map (\<lambda>k. 1000 - real k * 1000 / real n) [0..<n]),
      sched_sigmas = (\<lambda>n. map (\<lambda>k. 1 - real k / real n) [0..<n]),
      vae_encode = demo_vae_encode,
      vae_decode = (\<lambda>l. l),
      encode_prompt = demo_encode_prompt,
      transformer = demo_transformer,
      in_channels = 1,
      i2t_caption = (\<lambda>b. ''a photo''),
      interpolate_bicubic = (\<lambda>h w l. l),
      get_panorama_views = (\<lambda>h w t. ([(0, h, 0, w)], [full 1])),
      shift_to_mask_bbox_center = (\<lambda>ls ms r. ls),
      blend = (\<lambda>img bg m. img),
      randn = (\<lambda>k. full_latent (real k))\<rparr>"

text \<open>A dark image and a bright image of one band.\<close>

definition dark :: pil_image where
  "dark = \<lparr>nbands = 1, to_tensor = full_latent 0\<rparr>"

definition bright :: pil_image where
  "bright = \<lparr>nbands = 1, to_tensor = full_latent 1\<rparr>"

text \<open>The arguments of \<open>__call__\<close> at their defaults, for an 8 by 8 image.\<close>

definition demo_args :: call_args where
  "demo_args =
     \<lparr>arg_prompts = None, arg_negative_prompts = PStr [], arg_suffix = None,
      arg_background = None, arg_background_prompt = None,
      arg_background_negative_prompt = [], arg_height = 8, arg_width = 8,
      arg_num_inference_steps = None, arg_guidance_scale = None,
      arg_prompt_strengths = None, arg_masks = None, arg_mask_strengths = None,
      arg_mask_stds = None, arg_use_boolean_mask = True, arg_do_blend = True,
      arg_tile_size = 1024, arg_bootstrap_steps = None, arg_boostrap_mix_steps = None,
      arg_bootstrap_leak_sensitivity = None, arg_preprocess_mask_cover_alpha = None,
      arg_guidance_rescale = 0.7, arg_output_type = ''pil'',
      arg_joint_attention_kwargs = None, arg_clip_skip = None\<rparr>"

definition full_pooled :: "real \<Rightarrow> pooled" where
  "full_pooled v = (\<lambda>i. v)"

text \<open>
  The loop variables of a call with one region whose mask covers the first of the two
  pixels of the canvas, one tile, no background, no guidance and no bootstrapping.
\<close>

definition demo_ctx :: loop_ctx where
  "demo_ctx =
     \<lparr>c_num_masks = 1, c_fg_masks = [[half, half]], c_has_background = False,
      c_noise_bg_latents = [], c_white = None, c_noise = full_latent 0,
      c_views = [(0, 1, 0, 2)], c_tile_masks = [full 1], c_prompt_embeds = [full 3],
      c_pooled_prompt_embeds = [full_pooled 3], c_do_classifier_free_guidance = False,
      c_guidance_scale = 0, c_guidance_rescale = 0.7, c_bootstrap_steps = 0,
      c_boostrap_mix_steps = 1, c_bootstrap_leak_sensitivity = 0.2, c_h = 1, c_w = 2\<rparr>"

section \<open>Properties\<close>

subsection \<open>Noise levels\<close>

lemma noise_level_sqrt: "noise_level s = s / sqrt (s\<^sup>2 + 1)"
proof -
  have "(s\<^sup>2 + 1) powr (- (1 / 2)) = inverse ((s\<^sup>2 + 1) powr (1 / 2))"
    by (rule powr_minus)
  also have "(s\<^sup>2 + 1) powr (1 / 2) = sqrt (s\<^sup>2 + 1)"
    by (rule powr_half_sqrt) simp
  finally show ?thesis
    unfolding noise_level_def by (simp only: divide_inverse)
qed

lemma noise_level_3_4: "noise_level (3 / 4) = 3 / 5"
proof -
  have "sqrt ((3 / 4)\<^sup>2 + 1 :: real) = 5 / 4"
    by (rule real_sqrt_unique) (simp_all add: power2_eq_square)
  then show ?thesis unfolding noise_level_sqrt by (simp only:) simp
qed

lemma noise_level_4_3: "noise_level (4 / 3) = 4 / 5"
proof -
  have "sqrt ((4 / 3)\<^sup>2 + 1 :: real) = 5 / 3"
    by (rule real_sqrt_unique) (simp_all add: power2_eq_square)
  then show ?thesis unfolding noise_level_sqrt by (simp only:) simp
qed

lemma noise_level_order: "0 < noise_level (3 / 4) \<and> noise_level (3 / 4) < noise_level (4 / 3)"
  by (simp add: noise_level_3_4 noise_level_4_3)

subsection \<open>Adding noise\<close>


text \<open>
  C2. For every latent, noise and integer index: inside \<open>[0, T)\<close> the result of
  \<open>scheduler_add_noise\<close> is \<open>(1 - sigma[idx]) * latent + sigma[idx] * noise\<close>, with the
  freshly drawn sample in place of a missing noise; outside \<open>[0, T)\<close> the latent comes
  back unchanged.
\<close>

theorem scheduler_add_noise_spec:
  "scheduler_add_noise self fresh latent noise idx =
     (if 0 \<le> idx \<and> idx < int (length (sigmas self))
      then (\<lambda>c y x. (1 - sigmas self ! nat idx) * latent c y x
                     + sigmas self ! nat idx * (case noise of None \<Rightarrow> fresh | Some n \<Rightarrow> n) c y x)
      else latent)"
  by (auto simp: scheduler_add_noise_def Let_def)

theorem scheduler_add_noise_spec_witness:
  "scheduler_add_noise demo_pipeline (full_latent 8) (full_latent 4) None 1 0 0 0 = 7
   \<and> scheduler_add_noise demo_pipeline (full_latent 8) (full_latent 4) (Some (full_latent 1)) 0 0 0 0 = 0
   \<and> scheduler_add_noise demo_pipeline (full_latent 8) (full_latent 4) None 2 = full_latent 4
   \<and> scheduler_add_noise demo_pipeline (full_latent 8) (full_latent 4) None (- 1) = full_latent 4"
  using scheduler_add_noise_spec [of demo_pipeline "full_latent 8" "full_latent 4" None 1]
        scheduler_add_noise_spec [of demo_pipeline "full_latent 8" "full_latent 4" "Some (full_latent 1)" 0]
        scheduler_add_noise_spec [of demo_pipeline "full_latent 8" "full_latent 4" None 2]
        scheduler_add_noise_spec [of demo_pipeline "full_latent 8" "full_latent 4" None "- 1"]
  by (simp add: demo_pipeline_def full_latent_def)

subsection \<open>Overlap decay\<close>

lemma sum_planes_pos_iff:
  assumes "\<forall>m \<in> set ms. 0 \<le> m y x"
  shows "sum_planes ms y x > 0 \<longleftrightarrow> (\<exists>m \<in> set ms. m y x \<noteq> 0)"
proof -
  have nn: "\<And>v. v \<in> set (map (\<lambda>m. m y x) ms) \<Longrightarrow> 0 \<le> v" using assms by auto
  have "sum_list (map (\<lambda>m. m y x) ms) = 0 \<longleftrightarrow> (\<forall>v \<in> set (map (\<lambda>m. m y x) ms). v = 0)"
    by (rule sum_list_nonneg_eq_0_iff) (use nn in blast)
  moreover have "0 \<le> sum_list (map (\<lambda>m. m y x) ms)"
    by (rule sum_list_nonneg) (use nn in blast)
  ultimately show ?thesis unfolding sum_planes_def by auto
qed

lemma cover_decay_nth:
  assumes "i < length masks"
  shows "(cover_decay alpha masks ! i) y x =
     (if i + 1 < length masks \<and> sum_planes (drop (i + 1) masks) y x > 0
      then (masks ! i) y x * alpha else (masks ! i) y x)"
  using assms by (auto simp: cover_decay_def Let_def)

lemma later_nonzero_iff:
  "(\<exists>m \<in> set (drop (i + 1) masks). m y x \<noteq> 0) \<longleftrightarrow>
   (\<exists>j. i < j \<and> j < length masks \<and> (masks ! j) y x \<noteq> (0::real))"
proof
  assume "\<exists>m \<in> set (drop (i + 1) masks). m y x \<noteq> 0"
  then obtain k where k: "k < length (drop (i + 1) masks)" "(drop (i + 1) masks ! k) y x \<noteq> 0"
    by (auto simp: in_set_conv_nth)
  then have "i < i + 1 + k \<and> i + 1 + k < length masks \<and> (masks ! (i + 1 + k)) y x \<noteq> 0"
    by auto
  then show "\<exists>j. i < j \<and> j < length masks \<and> (masks ! j) y x \<noteq> 0" by blast
next
  assume "\<exists>j. i < j \<and> j < length masks \<and> (masks ! j) y x \<noteq> 0"
  then obtain j where j: "i < j" "j < length masks" "(masks ! j) y x \<noteq> 0" by blast
  then have "j - (i + 1) < length (drop (i + 1) masks)"
    and "drop (i + 1) masks ! (j - (i + 1)) = masks ! j" by auto
  then have "masks ! j \<in> set (drop (i + 1) masks)"
    by (metis nth_mem)
  with j show "\<exists>m \<in> set (drop (i + 1) masks). m y x \<noteq> 0" by blast
qed

text \<open>
  C4, as the code has it. For masks with non-negative values: when the decay factor
  (the argument, or the pipeline's default when the argument is missing) is strictly
  positive, region \<open>i\<close>'s value is multiplied by it at exactly the pixels where some
  region \<open>j > i\<close> is nonzero, and is unchanged elsewhere, so the last region is never
  modified; when the factor is not strictly positive (in particular 0) the step is
  skipped and every mask is unchanged.
\<close>

theorem overlap_decay_spec:
  assumes "\<forall>m \<in> set masks. \<forall>y x. 0 \<le> m y x" and "i < length masks"
  shows "length (overlap_decay self a masks) = length masks \<and>
     (overlap_decay self a masks ! i) y x =
       (let alpha = (case a of None \<Rightarrow> default_preprocess_mask_cover_alpha self | Some v \<Rightarrow> v)
        in if alpha > 0 \<and> (\<exists>j. i < j \<and> j < length masks \<and> (masks ! j) y x \<noteq> 0)
           then (masks ! i) y x * alpha else (masks ! i) y x)"
proof -
  have nn: "\<forall>m \<in> set (drop (i + 1) masks). 0 \<le> m y x"
    using assms(1) by (meson in_set_dropD)
  have pos: "sum_planes (drop (i + 1) masks) y x > 0 \<longleftrightarrow>
        (\<exists>j. i < j \<and> j < length masks \<and> (masks ! j) y x \<noteq> 0)"
    using sum_planes_pos_iff [OF nn] later_nonzero_iff [of i masks y x] by simp
  have len: "length (overlap_decay self a masks) = length masks"
    by (simp add: overlap_decay_def cover_decay_def Let_def)
  have "\<exists>j. i < j \<and> j < length masks \<and> (masks ! j) y x \<noteq> 0 \<Longrightarrow> i + 1 < length masks"
    by auto
  then show ?thesis
    using len cover_decay_nth [OF assms(2), of _ y x] pos
    by (auto simp: overlap_decay_def Let_def)
qed

theorem overlap_decay_spec_witness:
  "(overlap_decay demo_pipeline (Some (1 / 2)) [full 1, full 1] ! 0) 0 0 = 1 / 2
   \<and> (overlap_decay demo_pipeline (Some (1 / 2)) [full 1, full 1] ! 1) 0 0 = 1"
proof -
  have nn: "\<forall>m \<in> set [full 1, full 1]. \<forall>y x. 0 \<le> m y x" by (simp add: full_def)
  have ex: "\<exists>j. 0 < j \<and> j < length [full 1, full 1] \<and> ([full 1, full 1] ! j) 0 0 \<noteq> 0"
    by (rule exI [of _ 1]) (simp add: full_def)
  have nex: "\<not> (\<exists>j. 1 < j \<and> j < length [full 1, full 1] \<and> ([full 1, full 1] ! j) 0 0 \<noteq> 0)"
    by auto
  have "(overlap_decay demo_pipeline (Some (1 / 2)) [full 1, full 1] ! 0) 0 0 = 1 / 2"
    using overlap_decay_spec [OF nn, of 0 demo_pipeline "Some (1 / 2)" 0 0] ex
    by (simp add: full_def)
  moreover have "(overlap_decay demo_pipeline (Some (1 / 2)) [full 1, full 1] ! 1) 0 0 = 1"
    using overlap_decay_spec [OF nn, of 1 demo_pipeline "Some (1 / 2)" 0 0] nex
    by (simp add: full_def)
  ultimately show ?thesis by simp
qed

text \<open>
  With decay factor 0 and two fully covering regions, region 0 keeps its value 1 where
  region 1 covers it: it is not multiplied by the factor.
\<close>

theorem overlap_decay_zero_counterexample:
  "(overlap_decay demo_pipeline (Some 0) [full 1, full 1] ! 0) 0 0 \<noteq> ([full 1, full 1] ! 0) 0 0 * 0"
  by (simp add: overlap_decay_def full_def)

subsection \<open>Evaluation of the concrete objects\<close>

lemma demo_pipeline_sel:
  "default_mask_std demo_pipeline = 1"
  "default_mask_strength demo_pipeline = 1"
  "default_prompt_strength demo_pipeline = 1"
  "default_bootstrap_steps demo_pipeline = 1"
  "default_boostrap_mix_steps demo_pipeline = 1"
  "default_bootstrap_leak_sensitivity demo_pipeline = 0.2"
  "default_preprocess_mask_cover_alpha demo_pipeline = 0.3"
  "default_num_inference_steps demo_pipeline = 4"
  "default_guidance_scale demo_pipeline = 0"
  "mask_type demo_pipeline = ''discrete''"
  "vae_scale_factor demo_pipeline = 8"
  "timesteps demo_pipeline = [750, 0]"
  "sigmas demo_pipeline = [4 / 3, 3 / 4]"
  "noise_lvs demo_pipeline = [4 / 5, 3 / 5]"
  "next_noise_lvs demo_pipeline = [3 / 5, 0]"
  "white demo_pipeline = None"
  "encode_calls demo_pipeline = 0"
  "pipe_interrupt demo_pipeline = False"
  "vae_scaling_factor demo_pipeline = 1"
  "vae_shift_factor demo_pipeline = 0"
  "has_i2t demo_pipeline = True"
  "default_t_list demo_pipeline = [0, 4, 12, 25, 37]"
  "pipe_guidance_scale demo_pipeline = 0"
  "pipe_clip_skip demo_pipeline = None"
  "pipe_joint_attention_kwargs demo_pipeline = None"
  by (simp_all add: demo_pipeline_def)

lemma demo_ops_sel:
  "interpolate_bilinear demo_ops = (\<lambda>h w m. m)"
  "nearest_src demo_ops = (\<lambda>n k i. i)"
  "gaussian_lowpass demo_ops = (\<lambda>ms std. ms)"
  by (simp_all add: demo_ops_def)

lemma demo_mask_noise_lvs:
  "mask_noise_lvs demo_pipeline (Some ts) = ([4 / 5, 3 / 5], [3 / 5, 0])"
  by (simp add: mask_noise_lvs_def demo_pipeline_def noise_level_4_3 noise_level_3_4
      shift_next_def Let_def)

subsection \<open>Quantization\<close>

lemma length_chunks: "length (chunks p k xs) = p"
  by (induction p arbitrary: xs) auto

lemma chunks_nth: "i < p \<Longrightarrow> chunks p k xs ! i = take k (drop (i * k) xs)"
proof (induction p arbitrary: xs i)
  case 0
  then show ?case by simp
next
  case (Suc p)
  show ?case
  proof (cases i)
    case 0
    then show ?thesis by simp
  next
    case (Suc j)
    with Suc.prems have "j < p" by simp
    from Suc.IH [OF this, of "drop k xs"] Suc show ?thesis
      by (simp add: add.commute)
  qed
qed

lemma concat_uniform_length:
  "\<forall>xs \<in> set xss. length xs = T \<Longrightarrow> length (concat xss) = length xss * T"
  by (induction xss) auto

lemma concat_uniform_nth:
  "\<forall>xs \<in> set xss. length xs = T \<Longrightarrow> p < length xss \<Longrightarrow> t < T \<Longrightarrow>
     concat xss ! (p * T + t) = xss ! p ! t"
proof (induction xss arbitrary: p)
  case Nil
  then show ?case by simp
next
  case (Cons xs xss)
  show ?case
  proof (cases p)
    case 0
    with Cons.prems show ?thesis by (simp add: nth_append)
  next
    case (Suc q)
    with Cons.prems have "concat xss ! (q * T + t) = xss ! q ! t"
      using Cons.IH [of q] by simp
    with Cons.prems Suc show ?thesis by (simp add: nth_append)
  qed
qed

lemma quantize_discrete:
  "quantize ''discrete'' nls nxs = (\<lambda>m. map (\<lambda>nl. (\<lambda>y x. discrete_q nl (m y x))) nls)"
  by (rule ext) (simp add: quantize_def)

lemma regroup_block:
  assumes "regroup n xs = Inr out" and "p < length out" and "length (out ! p) = T"
    and "t < T"
  shows "p * T + t < length xs \<and> out ! p ! t = xs ! (p * T + t)"
proof -
  from assms(1) have n: "n \<noteq> 0" "n dvd length xs"
    and out: "out = chunks n (length xs div n) xs"
    by (auto simp: regroup_def split: if_splits)
  define k where "k = length xs div n"
  have nk: "n * k = length xs" using n by (simp add: k_def)
  have pn: "p < n" using assms(2) out by (simp add: length_chunks)
  have ch: "out ! p = take k (drop (p * k) xs)"
    using chunks_nth [OF pn] out by (simp add: k_def)
  have "(p + 1) * k \<le> n * k" using pn by (intro mult_le_mono1) simp
  then have le: "p * k + k \<le> length xs" using nk by (simp add: algebra_simps)
  then have "length (out ! p) = k" using ch by simp
  then have kT: "k = T" using assms(3) by simp
  show ?thesis using ch le kT assms(4) by simp
qed

lemma process_mask_regroup:
  assumes "process_mask ops self masks strength std height width ubm ts a = Inr (out, blurred, std')"
  shows "\<exists>n scaled. regroup n
            (map (interpolate_nearest ops height width (height div vae_scale_factor self)
                    (width div vae_scale_factor self))
               (concat (map (quantize (mask_type self) (fst (mask_noise_lvs self ts))
                               (snd (mask_noise_lvs self ts))) scaled))) = Inr out"
  using assms
  by (auto simp: process_mask_def Let_def split: sum.splits prod.splits if_splits)

lemma process_mask_discrete_point:
  assumes pm: "process_mask ops self masks strength std height width ubm ts a = Inr (out, blurred, std')"
    and disc: "mask_type self = ''discrete''"
    and p: "p < length out"
    and len: "length (out ! p) = length (fst (mask_noise_lvs self ts))"
  shows "\<exists>m. \<forall>t < length (out ! p). \<forall>y x.
            (out ! p ! t) y x = discrete_q (fst (mask_noise_lvs self ts) ! t) (m y x)"
proof -
  define nls where "nls = fst (mask_noise_lvs self ts)"
  define N where "N = interpolate_nearest ops height width (height div vae_scale_factor self)
                    (width div vae_scale_factor self)"
  define Q where "Q = (\<lambda>m::plane. map (\<lambda>nl. (\<lambda>y x. discrete_q nl (m y x))) nls)"
  from process_mask_regroup [OF pm] obtain n scaled
    where rg: "regroup n (map N (concat (map Q scaled))) = Inr out"
    by (auto simp: disc quantize_discrete N_def Q_def nls_def)
  have uni: "\<forall>xs \<in> set (map Q scaled). length xs = length nls" by (simp add: Q_def)
  have lenc: "length (concat (map Q scaled)) = length scaled * length nls"
    using concat_uniform_length [OF uni] by simp
  let ?m = "\<lambda>y x. (scaled ! p) (nearest_src ops height (height div vae_scale_factor self) y)
                      (nearest_src ops width (width div vae_scale_factor self) x)"
  have "(out ! p ! t) y x = discrete_q (nls ! t) (?m y x)" if t: "t < length (out ! p)" for t y x
  proof -
    have tl: "t < length nls" using t len by (simp add: nls_def)
    from regroup_block [OF rg p _ tl] len
    have b: "p * length nls + t < length (map N (concat (map Q scaled)))"
      and e: "out ! p ! t = map N (concat (map Q scaled)) ! (p * length nls + t)"
      by (simp_all add: nls_def)
    from b lenc have "p * length nls + t < length scaled * length nls" by simp
    then have ps: "p < length scaled"
      by (metis add_lessD1 mult_less_cancel2)
    have "concat (map Q scaled) ! (p * length nls + t) = map Q scaled ! p ! t"
      using concat_uniform_nth [OF uni _ tl, of p] ps by simp
    also have "\<dots> = (\<lambda>y x. discrete_q (nls ! t) ((scaled ! p) y x))"
      using ps tl by (simp add: Q_def)
    finally show ?thesis using e b by (simp add: N_def interpolate_nearest_def)
  qed
  then have "\<forall>t < length (out ! p). \<forall>y x.
      (out ! p ! t) y x = discrete_q (fst (mask_noise_lvs self ts) ! t) (?m y x)"
    by (simp add: nls_def)
  then show ?thesis by (rule exI [where x = ?m])
qed

lemma discrete_q_mono: "nl' < nl \<Longrightarrow> discrete_q nl v = 1 \<Longrightarrow> discrete_q nl' v = 1"
  by (auto simp: discrete_q_def of_bool_real_def split: if_splits)

lemma length_overlap_decay: "length (overlap_decay self a ms) = length ms"
  by (simp add: overlap_decay_def cover_decay_def Let_def)

lemma masks_to_tensor_length:
  "masks_to_tensor ubm masks = Inr m0 \<Longrightarrow> length m0 = masks_len masks"
  by (auto simp: masks_to_tensor_def masks_len_def split: masks_arg.splits if_splits)

lemma per_region_list_length:
  "per_region_ok n v \<Longrightarrow> length (per_region_list d v n) = n"
  by (auto simp: per_region_ok_def per_region_list_def split: option.splits per_region.splits)

lemma process_mask_parts:
  assumes "process_mask ops self masks strength std height width ubm ts a = Inr (out, blurred, std')"
  shows "\<exists>m0 m1 scaled.
       masks_to_tensor ubm masks = Inr m0
     \<and> (m1 = overlap_decay self a (map (interpolate_bilinear ops height width) m0)
        \<or> (\<exists>sd. m1 = gaussian_lowpass ops
                 (overlap_decay self a (map (interpolate_bilinear ops height width) m0)) sd))
     \<and> bcast2 (\<lambda>m s. (\<lambda>y x. m y x * s)) m1
          (per_region_list (default_mask_strength self) strength (length m0)) = Inr scaled
     \<and> regroup (length (per_region_list (default_mask_std self) std (length m0)))
          (map (interpolate_nearest ops height width (height div vae_scale_factor self)
                    (width div vae_scale_factor self))
               (concat (map (quantize (mask_type self) (fst (mask_noise_lvs self ts))
                               (snd (mask_noise_lvs self ts))) scaled))) = Inr out"
  using assms
  apply (simp add: process_mask_def Let_def length_overlap_decay
      split: sum.splits prod.splits if_splits)
   apply blast
  apply blast
  done

lemma bcast2_same_length_Inr:
  "bcast2 f xs ys = Inr zs \<Longrightarrow> length ys = length xs \<Longrightarrow> length zs = length xs"
  by (auto simp: bcast2_def)

lemma process_mask_rows:
  assumes pm: "process_mask ops self masks strength std height width ubm ts a = Inr (out, blurred, std')"
    and disc: "mask_type self = ''discrete''"
    and sd: "per_region_ok (masks_len masks) std"
    and st: "per_region_ok (masks_len masks) strength"
    and blur: "\<forall>ms sd. length (gaussian_lowpass ops ms sd) = length ms"
  shows "length out = masks_len masks
     \<and> (\<forall>p < length out. length (out ! p) = length (fst (mask_noise_lvs self ts)))"
proof -
  define nls where "nls = fst (mask_noise_lvs self ts)"
  define T where "T = length nls"
  define N where "N = interpolate_nearest ops height width (height div vae_scale_factor self)
                    (width div vae_scale_factor self)"
  define Q where "Q = (\<lambda>m::plane. map (\<lambda>nl. (\<lambda>y x. discrete_q nl (m y x))) nls)"
  from process_mask_parts [OF pm] obtain m0 m1 scaled where
    m0: "masks_to_tensor ubm masks = Inr m0"
    and m1: "m1 = overlap_decay self a (map (interpolate_bilinear ops height width) m0)
        \<or> (\<exists>sd. m1 = gaussian_lowpass ops
                 (overlap_decay self a (map (interpolate_bilinear ops height width) m0)) sd)"
    and sc: "bcast2 (\<lambda>m s. (\<lambda>y x. m y x * s)) m1
          (per_region_list (default_mask_strength self) strength (length m0)) = Inr scaled"
    and rg: "regroup (length (per_region_list (default_mask_std self) std (length m0)))
          (map N (concat (map Q scaled))) = Inr out"
    by (auto simp: disc quantize_discrete N_def Q_def nls_def)
  define P where "P = masks_len masks"
  have lm0: "length m0 = P" using masks_to_tensor_length [OF m0] by (simp add: P_def)
  have lm1: "length m1 = P" using m1 blur lm0 by (auto simp: length_overlap_decay)
  have "length (per_region_list (default_mask_strength self) strength (length m0)) = P"
    using per_region_list_length [OF st] lm0 by (simp add: P_def)
  with sc lm1 have ls: "length scaled = P" using bcast2_same_length_Inr by metis
  have lstd: "length (per_region_list (default_mask_std self) std (length m0)) = P"
    using per_region_list_length [OF sd] lm0 by (simp add: P_def)
  have uni: "\<forall>xs \<in> set (map Q scaled). length xs = T" by (simp add: Q_def T_def)
  have lf: "length (map N (concat (map Q scaled))) = P * T"
    using concat_uniform_length [OF uni] ls by simp
  from rg have rg': "regroup P (map N (concat (map Q scaled))) = Inr out"
    by (simp only: lstd)
  have P0: "P \<noteq> 0" using rg' by (auto simp: regroup_def split: if_splits)
  have "out = chunks P (length (map N (concat (map Q scaled))) div P) (map N (concat (map Q scaled)))"
    using rg' by (auto simp: regroup_def split: if_splits)
  then have out: "out = chunks P (P * T div P) (map N (concat (map Q scaled)))"
    by (simp only: lf)
  have k: "P * T div P = T" using P0 by simp
  have lo: "length out = P" using out by (simp add: length_chunks)
  have "length (out ! p) = T" if p: "p < length out" for p
  proof -
    have pP: "p < P" using p lo by simp
    have ch: "out ! p = take T (drop (p * T) (map N (concat (map Q scaled))))"
      using chunks_nth [OF pP] out k by simp
    have "(p + 1) * T \<le> P * T" using pP by (intro mult_le_mono1) simp
    then have "p * T + T \<le> P * T" by (simp add: algebra_simps)
    then show ?thesis using ch lf by simp
  qed
  then show ?thesis using lo by (simp add: T_def nls_def P_def)
qed

lemma discrete_rows_monotone:
  assumes "process_mask ops self masks strength std height width ubm ts a = Inr (out, blurred, std')"
    and "mask_type self = ''discrete''"
    and "sorted_wrt (>) (fst (mask_noise_lvs self ts))"
    and "p < length out"
    and "length (out ! p) = length (fst (mask_noise_lvs self ts))"
    and "t + 1 < length (out ! p)"
    and "(out ! p ! t) y x = 1"
  shows "(out ! p ! (t + 1)) y x = 1"
proof -
  from process_mask_discrete_point [OF assms(1,2,4,5)] obtain m where
    m: "\<And>t y x. t < length (out ! p) \<Longrightarrow>
          (out ! p ! t) y x = discrete_q (fst (mask_noise_lvs self ts) ! t) (m y x)"
    by blast
  have "fst (mask_noise_lvs self ts) ! (t + 1) < fst (mask_noise_lvs self ts) ! t"
    using assms(3,5,6) by (simp add: sorted_wrt_iff_nth_less)
  moreover have "discrete_q (fst (mask_noise_lvs self ts) ! t) (m y x) = 1"
    using m [of t y x] assms(6,7) by simp
  ultimately have "discrete_q (fst (mask_noise_lvs self ts) ! (t + 1)) (m y x) = 1"
    by (rule discrete_q_mono)
  then show ?thesis using m [of "t + 1" y x] assms(6) by simp
qed

text \<open>
  C1. In discrete mode, with strictly decreasing noise levels, every region's coverage
  grows with the step index: a pixel that the quantized mask of \<open>process_mask\<close> sets
  to 1 at step \<open>t\<close> is also 1 at step \<open>t + 1\<close>. This holds when the blur widths and the
  strengths are each given as nothing, as one number, or with one entry per mask (and
  the blur returns as many masks as it is given): then the result has one row per mask
  and one plane per schedule step in every row.
\<close>

theorem discrete_coverage_monotone:
  assumes "process_mask ops self masks strength std height width ubm ts a = Inr (out, blurred, std')"
    and "mask_type self = ''discrete''"
    and "sorted_wrt (>) (fst (mask_noise_lvs self ts))"
    and "per_region_ok (masks_len masks) std"
    and "per_region_ok (masks_len masks) strength"
    and "\<forall>ms sd. length (gaussian_lowpass ops ms sd) = length ms"
    and "p < length out"
    and "t + 1 < length (fst (mask_noise_lvs self ts))"
    and "(out ! p ! t) y x = 1"
  shows "length out = masks_len masks
     \<and> length (out ! p) = length (fst (mask_noise_lvs self ts))
     \<and> (out ! p ! (t + 1)) y x = 1"
proof -
  from process_mask_rows [OF assms(1,2,4,5,6)]
  have lo: "length out = masks_len masks"
    and "\<forall>p < length out. length (out ! p) = length (fst (mask_noise_lvs self ts))"
    by simp_all
  with assms(7) have len: "length (out ! p) = length (fst (mask_noise_lvs self ts))"
    by simp
  have "(out ! p ! (t + 1)) y x = 1"
    using discrete_rows_monotone [OF assms(1,2,3,7) len _ assms(9)] assms(8) len by simp
  with lo len show ?thesis by simp
qed

lemma demo_process_mask_discrete:
  "\<exists>out blurred std'.
     process_mask demo_ops demo_pipeline (MTensor [full 1]) (Some (Scalar 1)) (Some (Scalar 0))
        8 8 True (Some [750, 0]) (Some 0) = Inr (out, blurred, std')
     \<and> length out = 1 \<and> length (out ! 0) = 2 \<and> (out ! 0 ! 0) 0 0 = 1"
  by (simp add: process_mask_def masks_to_tensor_def overlap_decay_def demo_mask_noise_lvs
      per_region_list_def bcast2_def quantize_def regroup_def interpolate_nearest_def
      discrete_q_def of_bool_real_def full_def demo_ops_sel demo_pipeline_sel Let_def
      numeral_2_eq_2)

theorem discrete_coverage_monotone_witness:
  "\<exists>out blurred std'.
     process_mask demo_ops demo_pipeline (MTensor [full 1]) (Some (Scalar 1)) (Some (Scalar 0))
        8 8 True (Some [750, 0]) (Some 0) = Inr (out, blurred, std')
     \<and> length out = 1 \<and> length (out ! 0) = 2
     \<and> (out ! 0 ! 0) 0 0 = 1 \<and> (out ! 0 ! (0 + 1)) 0 0 = 1"
proof -
  from demo_process_mask_discrete obtain out blurred std' where
    eq: "process_mask demo_ops demo_pipeline (MTensor [full 1]) (Some (Scalar 1)) (Some (Scalar 0))
        8 8 True (Some [750, 0]) (Some 0) = Inr (out, blurred, std')"
    and l: "length out = 1" and v: "(out ! 0 ! 0) 0 0 = 1"
    by blast
  have d: "mask_type demo_pipeline = ''discrete''" by (simp add: demo_pipeline_sel)
  have s: "sorted_wrt (>) (fst (mask_noise_lvs demo_pipeline (Some [750, 0])))"
    by (simp add: demo_mask_noise_lvs)
  have sd: "per_region_ok (masks_len (MTensor [full 1])) (Some (Scalar 0))"
    by (simp add: per_region_ok_def)
  have st: "per_region_ok (masks_len (MTensor [full 1])) (Some (Scalar 1))"
    by (simp add: per_region_ok_def)
  have b: "\<forall>ms sd. length (gaussian_lowpass demo_ops ms sd) = length ms"
    by (simp add: demo_ops_sel)
  have p: "0 < length out" using l by simp
  have t: "0 + 1 < length (fst (mask_noise_lvs demo_pipeline (Some [750, 0])))"
    by (simp add: demo_mask_noise_lvs)
  have "length out = masks_len (MTensor [full 1])
     \<and> length (out ! 0) = length (fst (mask_noise_lvs demo_pipeline (Some [750, 0])))
     \<and> (out ! 0 ! (0 + 1)) 0 0 = 1"
    using discrete_coverage_monotone [OF eq d s sd st b p t v] .
  then have "length out = 1 \<and> length (out ! 0) = 2 \<and> (out ! 0 ! (0 + 1)) 0 0 = 1"
    by (simp add: demo_mask_noise_lvs masks_len_def)
  with eq v show ?thesis by blast
qed

lemma regroup_2_6: "regroup 2 [a, b, c, d, e, f] = Inr [[a, b, c], [d, e, f]]"
proof -
  have l: "length [a, b, c, d, e, f] = 6" by simp
  have c: "chunks 2 3 [a, b, c, d, e, f] = [[a, b, c], [d, e, f]]"
    by (simp add: numeral_2_eq_2 numeral_3_eq_3)
  show ?thesis unfolding regroup_def l using c by simp
qed

lemma regroup_Suc2_6:
  "regroup (Suc (Suc 0)) [a, b, c, d, e, f] = Inr [[a, b, c], [d, e, f]]"
  using regroup_2_6 [of a b c d e f] by (simp add: numeral_2_eq_2)

text \<open>
  With three masks and a list of two blur widths the planes are regrouped by the length
  of that list, into two rows of three planes. Row 1 then holds mask 1 at step 1 and
  mask 2 at steps 0 and 1: it is 1 at index 0 and 0 at index 1.
\<close>

theorem discrete_coverage_std_counterexample:
  "process_mask demo_ops demo_pipeline (MTensor [full 0.7, full 0.7, full 0.5])
       (Some (Scalar 1)) (Some (PerRegion [0, 0])) 8 8 True (Some [750, 0]) (Some 0)
     = Inr ([[full 0, full 1, full 0], [full 1, full 0, full 0]],
            [full 0.7, full 0.7, full 0.5], [0, 0])
   \<and> ([[full 0, full 1, full 0], [full 1, full 0, full 0]] ! 1 ! 0) 0 0 = (1::real)
   \<and> ([[full 0, full 1, full 0], [full 1, full 0, full 0]] ! 1 ! (0 + 1)) 0 0 = (0::real)"
  by (simp add: process_mask_def masks_to_tensor_def overlap_decay_def demo_mask_noise_lvs
      per_region_list_def bcast2_def quantize_def regroup_Suc2_6 interpolate_nearest_def
      discrete_q_def of_bool_real_def full_def demo_ops_sel demo_pipeline_sel Let_def)

lemma continuous_q_one_iff: "nx < nl \<Longrightarrow> continuous_q nl nx v = 1 \<longleftrightarrow> nl \<le> v"
  by (auto simp: continuous_q_def clip_def min_def max_def field_simps)

lemma discrete_q_one_iff: "discrete_q nl v = 1 \<longleftrightarrow> nl < v"
  by (simp add: discrete_q_def of_bool_real_def)

lemma quantizers_differ_at_level:
  "nl \<noteq> nx \<Longrightarrow> continuous_q nl nx nl = 1 \<and> discrete_q nl nl = 0"
  by (simp add: continuous_q_def discrete_q_def clip_def of_bool_real_def)

text \<open>
  C5. The continuous mask is meant to be 1 exactly where the discrete mask is. At a mask
  value equal to the noise level of the step, here the level that the pipeline itself
  computes for step 0, the two differ: the continuous mask is 1 and the discrete mask
  is 0. Of the two noise levels only their order is used.
\<close>

theorem continuous_level_not_discrete:
  "process_mask demo_ops (demo_pipeline\<lparr>mask_type := ''continuous''\<rparr>)
       (MTensor [full (noise_level (sigmas demo_pipeline ! 0))])
       (Some (Scalar 1)) (Some (Scalar 0)) 8 8 True (Some [750, 0]) (Some 0)
     = Inr ([[full 1, full 1]], [full (noise_level (sigmas demo_pipeline ! 0))], [0])
   \<and> process_mask demo_ops demo_pipeline
       (MTensor [full (noise_level (sigmas demo_pipeline ! 0))])
       (Some (Scalar 1)) (Some (Scalar 0)) 8 8 True (Some [750, 0]) (Some 0)
     = Inr ([[full 0, full 1]], [full (noise_level (sigmas demo_pipeline ! 0))], [0])
   \<and> ([[full 1, full 1]] ! 0 ! 0) 0 0 = (1::real)
   \<and> ([[full 0, full 1]] ! 0 ! 0) 0 0 = (0::real)"
proof -
  define a where "a = noise_level (4 / 3)"
  define b where "b = noise_level (3 / 4)"
  have ab: "0 < b" "b < a" using noise_level_order by (simp_all add: a_def b_def)
  have n: "mask_noise_lvs (demo_pipeline\<lparr>mask_type := mt\<rparr>) (Some [750, 0]) = ([a, b], [b, 0])"
    for mt
    by (simp add: mask_noise_lvs_def demo_pipeline_sel shift_next_def a_def b_def)
  have n': "mask_noise_lvs demo_pipeline (Some [750, 0]) = ([a, b], [b, 0])"
    by (simp add: mask_noise_lvs_def demo_pipeline_sel shift_next_def a_def b_def)
  have s0: "noise_level (sigmas demo_pipeline ! 0) = a" by (simp add: demo_pipeline_sel a_def)
  have c0: "continuous_q a b a = 1" using ab quantizers_differ_at_level [of a b] by simp
  have c1: "continuous_q b 0 a = 1" using ab by (simp add: continuous_q_def clip_def)
  have d0: "discrete_q a a = 0" by (simp add: discrete_q_def of_bool_real_def)
  have d1: "discrete_q b a = 1" using ab by (simp add: discrete_q_def of_bool_real_def)
  show ?thesis
    unfolding s0
    by (simp add: process_mask_def masks_to_tensor_def overlap_decay_def n n'
      per_region_list_def bcast2_def quantize_def regroup_def interpolate_nearest_def
      c0 c1 d0 d1 full_def demo_ops_sel demo_pipeline_sel Let_def numeral_2_eq_2)
qed

subsection \<open>White background cache\<close>

lemma get_white_background_miss:
  assumes "white self = Some wh" and "rows wh < height \<or> cols wh < width"
  shows "encode_calls (snd (get_white_background enc self height width)) = encode_calls self + 1"
  using assms by (simp add: get_white_background_def encode_imgs_def Let_def)

lemma get_white_background_hit:
  assumes "white self = Some wh" and "height \<le> rows wh" and "width \<le> cols wh"
  shows "get_white_background enc self height width =
           (crop wh (height div vae_scale_factor self) (width div vae_scale_factor self), self)"
  using assms by (simp add: get_white_background_def)

text \<open>Whenever the encoder shrinks the image, asking again for the size just cached
  encodes again.\<close>

lemma get_white_background_same_size_again:
  assumes "rows (enc (encode_calls self) \<lparr>rows = height, cols = width, dat = (\<lambda>c y x. 2 * 1 - 1)\<rparr>) < height"
    and "white self = None"
  shows "encode_calls (snd (get_white_background enc
            (snd (get_white_background enc self height width)) height width)) = encode_calls self + 2"
  using assms by (simp add: get_white_background_def encode_imgs_def Let_def)

text \<open>
  C8. The cache of the white latent is meant to be reused for a size seen before. The
  test that guards it compares the cached latent's size with the requested image size,
  so with an encoder that maps an image to a latent 8 times smaller, a second request
  for 1024 by 1024 encodes again and returns a different sample.
\<close>

theorem white_background_reencoded:
  "(case get_white_background demo_vae_encode demo_pipeline 1024 1024 of
      (w1, self1) \<Rightarrow>
        (case get_white_background demo_vae_encode self1 1024 1024 of
           (w2, self2) \<Rightarrow>
             encode_calls self1 = 1 \<and> encode_calls self2 = 2 \<and> w1 \<noteq> w2
             \<and> rows w1 = 128 \<and> cols w1 = 128))"
  by (simp add: get_white_background_def encode_imgs_def demo_vae_encode_def
      demo_pipeline_sel full_latent_def Let_def fun_eq_iff)

subsection \<open>The generation call\<close>

lemma bind_err_simps [simp]:
  "bind_err (Inl e) f = Inl e"
  "bind_err (Inr v) f = f v"
  by (simp_all add: bind_err_def)

lemma demo_args_sel:
  "arg_prompts demo_args = None"
  "arg_negative_prompts demo_args = PStr []"
  "arg_suffix demo_args = None"
  "arg_background demo_args = None"
  "arg_background_prompt demo_args = None"
  "arg_background_negative_prompt demo_args = []"
  "arg_height demo_args = 8"
  "arg_width demo_args = 8"
  "arg_num_inference_steps demo_args = None"
  "arg_guidance_scale demo_args = None"
  "arg_prompt_strengths demo_args = None"
  "arg_masks demo_args = None"
  "arg_mask_strengths demo_args = None"
  "arg_mask_stds demo_args = None"
  "arg_use_boolean_mask demo_args = True"
  "arg_do_blend demo_args = True"
  "arg_tile_size demo_args = 1024"
  "arg_bootstrap_steps demo_args = None"
  "arg_boostrap_mix_steps demo_args = None"
  "arg_bootstrap_leak_sensitivity demo_args = None"
  "arg_preprocess_mask_cover_alpha demo_args = None"
  "arg_guidance_rescale demo_args = 0.7"
  "arg_output_type demo_args = ''pil''"
  "arg_joint_attention_kwargs demo_args = None"
  "arg_clip_skip demo_args = None"
  by (simp_all add: demo_args_def)

lemma demo_call_ops_sel:
  "mops demo_call_ops = demo_ops"
  "vae_encode demo_call_ops = demo_vae_encode"
  "vae_decode demo_call_ops = (\<lambda>l. l)"
  "encode_prompt demo_call_ops = demo_encode_prompt"
  "transformer demo_call_ops = demo_transformer"
  "in_channels demo_call_ops = 1"
  "interpolate_bicubic demo_call_ops = (\<lambda>h w l. l)"
  "get_panorama_views demo_call_ops = (\<lambda>h w t. ([(0, h, 0, w)], [full 1]))"
  "shift_to_mask_bbox_center demo_call_ops = (\<lambda>ls ms r. ls)"
  "blend demo_call_ops = (\<lambda>img bg m. img)"
  "randn demo_call_ops = (\<lambda>k. full_latent (real k))"
  by (simp_all add: demo_call_ops_def)

lemma demo_prepare_generation:
  "prepare_generation demo_call_ops demo_pipeline (demo_args\<lparr>arg_prompts := p, arg_masks := m\<rparr>)
     = Inr (demo_pipeline, 0, False)"
  by (simp add: prepare_generation_def demo_args_sel demo_pipeline_sel Let_def)

lemma regroup_2_4: "regroup 2 [a, b, c, d] = Inr [[a, b], [c, d]]"
proof -
  have l: "length [a, b, c, d] = 4" by simp
  have c: "chunks 2 2 [a, b, c, d] = [[a, b], [c, d]]" by (simp add: numeral_2_eq_2)
  show ?thesis unfolding regroup_def l using c by simp
qed

lemma regroup_Suc2_4: "regroup (Suc (Suc 0)) [a, b, c, d] = Inr [[a, b], [c, d]]"
  using regroup_2_4 [of a b c d] by (simp add: numeral_2_eq_2)

text \<open>
  C9. One prompt for two masks given as a list of images, everything else at its
  default: the counts pass validation, but the broadcast of the prompt embeddings over
  the masks reads \<open>masks.shape\<close> of a list and the call raises instead of generating.
\<close>

theorem single_prompt_list_masks_raises:
  "call demo_call_ops demo_pipeline
     (demo_args\<lparr>arg_prompts := Some (PList [''a'']), arg_masks := Some (MList [dark, dark])\<rparr>)
   = Inl (AttributeError ''shape'')"
proof -
  have pm: "process_mask demo_ops demo_pipeline (MList [dark, dark]) None None 8 8 True
              (Some [750, 0]) None
            = Inr ([[full 0, full 0], [full 1, full 1]], [(\<lambda>y x. 3 / 10), full 1], [1, 1])"
    by (simp add: process_mask_def masks_to_tensor_def proc_def dark_def overlap_decay_def
        cover_decay_def sum_planes_def demo_mask_noise_lvs per_region_list_def bcast2_def
        quantize_def regroup_Suc2_4 interpolate_nearest_def discrete_q_def of_bool_real_def
        clip_def full_def full_latent_def demo_ops_sel demo_pipeline_sel Let_def)
  show ?thesis
    by (simp add: call_def simplest_cases_def generate_def demo_prepare_generation
        prompts_len_def prompts_list_def masks_len_def validate_counts_def demo_args_sel
        demo_call_ops_sel demo_pipeline_sel pm background_masks_def sum_pixels_def clip_def
        full_def prepare_background_def get_white_background_def encode_imgs_def
        demo_vae_encode_def demo_encode_prompt_def prepare_embeds_def broadcast_negative_def
        broadcast_prompts_def Let_def)
qed

text \<open>
  C10. Called without prompts (\<open>None\<close>, an empty list or an empty string) and without a
  background prompt, \<open>__call__\<close> returns its \<open>background\<close> argument, whatever it is, and
  leaves the pipeline as it was; the result does not depend on any collaborator.
\<close>

theorem call_without_prompts_returns_background:
  assumes "arg_prompts a = None \<or> (\<exists>p. arg_prompts a = Some p \<and> prompts_len p = 0)"
    and "arg_background_prompt a = None"
  shows "call ops self a = Inr (Background (arg_background a), self)"
  using assms by (auto simp: call_def simplest_cases_def)

theorem call_without_prompts_returns_background_witness:
  "call demo_call_ops demo_pipeline demo_args = Inr (Background None, demo_pipeline)
   \<and> call demo_call_ops demo_pipeline
        (demo_args\<lparr>arg_prompts := Some (PList []), arg_background := Some (BgImage bright),
                    arg_masks := Some (MList [dark])\<rparr>)
      = Inr (Background (Some (BgImage bright)), demo_pipeline)"
proof -
  have 1: "arg_prompts demo_args = None" "arg_background_prompt demo_args = None"
    "arg_background demo_args = None"
    by (simp_all add: demo_args_def)
  show ?thesis
    using call_without_prompts_returns_background [of demo_args demo_call_ops demo_pipeline]
      call_without_prompts_returns_background
        [of "demo_args\<lparr>arg_prompts := Some (PList []), arg_background := Some (BgImage bright),
                    arg_masks := Some (MList [dark])\<rparr>" demo_call_ops demo_pipeline]
    by (simp add: 1 prompts_len_def)
qed

lemma validate_counts_ok_iff:
  "validate_counts num_masks num_prompts num_nprompts = Inr () \<longleftrightarrow>
     (num_prompts = num_masks \<or> num_prompts = 1) \<and> (num_nprompts = num_prompts \<or> num_nprompts = 1)"
  by (simp add: validate_counts_def)

lemma validation_error_before_masks:
  assumes "prepare_generation ops self a = Inr (self', g, c)"
    and "validate_counts (masks_len masks) (length (prompts_list prompts))
           (length (prompts_list (arg_negative_prompts a))) = Inl e"
  shows "generate ops self a prompts masks = Inl e"
  using assms by (simp add: generate_def Let_def)

lemma broadcast_prompts_tensor:
  assumes "length t > 1"
  shows "broadcast_prompts (MTensor t) (length t) 1 te =
     Inr \<lparr>te_prompt_embeds = repeat_batch (length t) (te_prompt_embeds te),
          te_negative_prompt_embeds = map_option (repeat_batch (length t)) (te_negative_prompt_embeds te),
          te_pooled_prompt_embeds = repeat_batch (length t) (te_pooled_prompt_embeds te),
          te_negative_pooled_prompt_embeds =
            map_option (repeat_batch (length t)) (te_negative_pooled_prompt_embeds te)\<rparr>"
  using assms by (simp add: broadcast_prompts_def)

lemma broadcast_prompts_list_raises:
  "num_masks > num_prompts \<Longrightarrow>
     broadcast_prompts (MList l) num_masks num_prompts te = Inl (AttributeError ''shape'')"
  by (simp add: broadcast_prompts_def)

lemma chunk2_append:
  "length u = length c \<Longrightarrow> u \<noteq> [] \<Longrightarrow> chunk2 (u @ c) = Inr (u, c)"
  by (cases u) (auto simp: chunk2_def Let_def)

lemma bcast2_same_length: "length xs = length ys \<Longrightarrow> bcast2 f xs ys = Inr (map2 f xs ys)"
  by (simp add: bcast2_def)

lemma map2_map2_fst:
  "length xs = length ys \<Longrightarrow> map2 g xs (map2 f xs ys) = map2 (\<lambda>x y. g x (f x y)) xs ys"
  by (induction xs ys rule: list_induct2) auto

text \<open>
  C7, as the code has it. Guidance is on exactly when the guidance scale is above 1.
  Then the denoiser's output on the doubled batch is split into its unconditional and
  conditional halves and, when no rescale is asked for, the prediction is
  \<open>uncond + scale * (cond - uncond)\<close>. When the guidance scale is at most 1, in
  particular 0, the denoiser is called once, on the unmodified batch, and its
  prediction is used as it is.
\<close>

theorem guidance_rule:
  assumes "prepare_generation ops self a = Inr (self', guidance_scale, cfg)"
  shows "guidance_scale = (case arg_guidance_scale a of
                             None \<Rightarrow> default_guidance_scale self' | Some g \<Rightarrow> g)
     \<and> cfg = (guidance_scale > 1)
     \<and> (\<not> cfg \<longrightarrow> guided_noise_pred ops cfg guidance_scale gr ls t pe pp
                      = transformer ops ls t pe pp)
     \<and> (cfg \<and> gr \<le> 0 \<and> transformer ops (ls @ ls) t pe pp = Inr (uncond @ cond)
          \<and> length uncond = length cond \<and> uncond \<noteq> [] \<longrightarrow>
        guided_noise_pred ops cfg guidance_scale gr ls t pe pp
          = Inr (map2 (\<lambda>u c. (\<lambda>ch y x. u ch y x + guidance_scale * (c ch y x - u ch y x)))
                   uncond cond))"
proof -
  from assms have gs: "guidance_scale = (case arg_guidance_scale a of
                             None \<Rightarrow> default_guidance_scale self' | Some g \<Rightarrow> g)"
    and c: "cfg = (guidance_scale > 1)"
    by (auto simp: prepare_generation_def bind_err_def Let_def prepare_flashflowmatch_schedule_def
        split: sum.splits option.splits)
  have off: "\<not> cfg \<longrightarrow> guided_noise_pred ops cfg guidance_scale gr ls t pe pp
                      = transformer ops ls t pe pp"
    by (cases "transformer ops ls t pe pp") (simp_all add: guided_noise_pred_def)
  have on: "guided_noise_pred ops cfg guidance_scale gr ls t pe pp
          = Inr (map2 (\<lambda>u c. (\<lambda>ch y x. u ch y x + guidance_scale * (c ch y x - u ch y x)))
                   uncond cond)"
    if "cfg" "gr \<le> 0" "transformer ops (ls @ ls) t pe pp = Inr (uncond @ cond)"
      "length uncond = length cond" "uncond \<noteq> []"
    using that
    by (simp add: guided_noise_pred_def chunk2_append bcast2_same_length map2_map2_fst)
  show ?thesis using gs c off on by blast
qed

lemma demo_prepare_generation_scale:
  "prepare_generation demo_call_ops demo_pipeline (demo_args\<lparr>arg_guidance_scale := Some g\<rparr>)
     = Inr (demo_pipeline\<lparr>pipe_guidance_scale := g\<rparr>, g, g > 1)"
  by (simp add: prepare_generation_def demo_args_sel demo_pipeline_sel Let_def)

theorem guidance_rule_witness:
  "guided_noise_pred demo_call_ops True 2 0 [full_latent 0] 750 [full (- 1), full 3]
       [full_pooled (- 1), full_pooled 3] = Inr [full_latent 7]
   \<and> guided_noise_pred demo_call_ops False 0 0.7 [full_latent 0] 750 [full 3] [full_pooled 3]
       = transformer demo_call_ops [full_latent 0] 750 [full 3] [full_pooled 3]"
proof -
  have t: "transformer demo_call_ops ([full_latent 0] @ [full_latent 0]) 750 [full (- 1), full 3]
             [full_pooled (- 1), full_pooled 3] = Inr ([full_latent (- 1)] @ [full_latent 3])"
    by (simp add: demo_call_ops_sel demo_transformer_def full_def)
  have "guided_noise_pred demo_call_ops True 2 0 [full_latent 0] 750 [full (- 1), full 3]
       [full_pooled (- 1), full_pooled 3] = Inr [full_latent 7]"
    using guidance_rule [OF demo_prepare_generation_scale [of 2], of 0 "[full_latent 0]" 750
        "[full (- 1), full 3]" "[full_pooled (- 1), full_pooled 3]" "[full_latent (- 1)]"
        "[full_latent 3]"] t
    by (simp add: full_latent_def)
  moreover have "guided_noise_pred demo_call_ops False 0 0.7 [full_latent 0] 750 [full 3] [full_pooled 3]
       = transformer demo_call_ops [full_latent 0] 750 [full 3] [full_pooled 3]"
    using guidance_rule [OF demo_prepare_generation_scale [of 0], of "0.7" "[full_latent 0]" 750
        "[full 3]" "[full_pooled 3]"]
    by simp
  ultimately show ?thesis by simp
qed

text \<open>
  With guidance scale 0 the prediction used by the step is the denoiser's prediction
  for the prompt embedding (3), not its prediction for the negative embedding (-1).
\<close>

theorem guidance_scale_zero_counterexample:
  "prepare_generation demo_call_ops demo_pipeline (demo_args\<lparr>arg_guidance_scale := Some 0\<rparr>)
     = Inr (demo_pipeline, 0, False)
   \<and> guided_noise_pred demo_call_ops False 0 (arg_guidance_rescale demo_args) [full_latent 0] 750
        [full 3] [full_pooled 3] = Inr [full_latent 3]
   \<and> transformer demo_call_ops [full_latent 0] 750 [full (- 1)] [full_pooled (- 1)]
        = Inr [full_latent (- 1)]
   \<and> full_latent 3 \<noteq> full_latent (- 1)"
proof -
  have "demo_pipeline\<lparr>pipe_guidance_scale := 0\<rparr> = demo_pipeline"
    by (simp add: demo_pipeline_def)
  moreover have "full_latent 3 \<noteq> full_latent (- 1)"
    by (simp add: full_latent_def fun_eq_iff)
  ultimately show ?thesis
    using demo_prepare_generation_scale [of 0]
    by (simp add: guided_noise_pred_def demo_call_ops_sel demo_transformer_def full_def)
qed

subsection \<open>The merge of a compositor step\<close>

lemma in_set_map: "v \<in> set (map f xs) \<Longrightarrow> \<exists>x \<in> set xs. v = f x"
  by (induction xs) auto

lemma sigmoid_nonneg: "0 \<le> v \<Longrightarrow> 0 \<le> sigmoid v * 2 - 1"
proof -
  assume "0 \<le> v"
  then have "1 + exp (- v) \<le> 2" by simp
  moreover have "0 < 1 + exp (- v)" by (simp add: add_pos_pos)
  ultimately have "1 \<le> 2 / (1 + exp (- v))" by (simp add: pos_le_divide_eq)
  then show ?thesis by (simp add: sigmoid_def)
qed

lemma bind_err_Inr:
  "bind_err m f = Inr r \<Longrightarrow> \<exists>v. m = Inr v \<and> f v = Inr r"
  by (cases m) (simp_all add: bind_err_def)

lemma mean_squares_nonneg:
  "0 \<le> sum_list (map (\<lambda>c. (l c y x - b c y x)\<^sup>2) cs) / real n" for l b :: latent
proof -
  have "0 \<le> sum_list (map (\<lambda>c. (l c y x - b c y x)\<^sup>2) cs)"
    by (rule sum_list_nonneg) auto
  then show ?thesis by simp
qed

lemma bcast2_cases:
  assumes "bcast2 f xs ys = Inr zs"
  shows "(length xs = length ys \<and> zs = map2 f xs ys)
       \<or> (length ys = 1 \<and> zs = map (\<lambda>x. f x (hd ys)) xs)
       \<or> (length xs = 1 \<and> zs = map (f (hd xs)) ys)"
proof (cases "length xs = length ys")
  case True
  with assms show ?thesis by (simp add: bcast2_def)
next
  case False
  show ?thesis
  proof (cases "length ys = 1")
    case True
    with assms False show ?thesis by (simp add: bcast2_def)
  next
    case ny: False
    show ?thesis
    proof (cases "length xs = 1")
      case True
      with assms False ny show ?thesis by (simp add: bcast2_def)
    next
      case nx: False
      with assms False ny show ?thesis by (simp add: bcast2_def)
    qed
  qed
qed

lemma bcast2_elems:
  assumes b: "bcast2 f xs ys = Inr zs" and z: "z \<in> set zs"
  shows "\<exists>x \<in> set xs. \<exists>y \<in> set ys. z = f x y"
proof -
  from z obtain i where i: "i < length zs" and zi: "z = zs ! i"
    by (metis in_set_conv_nth)
  from bcast2_cases [OF b] show ?thesis
  proof (elim disjE conjE)
    assume l: "length xs = length ys" and e: "zs = map2 f xs ys"
    from i e l have ix: "i < length xs" and iy: "i < length ys" by simp_all
    have "z = f (xs ! i) (ys ! i)" using zi e ix iy by simp
    moreover have "xs ! i \<in> set xs" "ys ! i \<in> set ys" using ix iy by simp_all
    ultimately show ?thesis by blast
  next
    assume l: "length ys = 1" and e: "zs = map (\<lambda>x. f x (hd ys)) xs"
    from l have "hd ys \<in> set ys" by (cases ys) simp_all
    moreover have "xs ! i \<in> set xs" "z = f (xs ! i) (hd ys)" using i zi e by simp_all
    ultimately show ?thesis by blast
  next
    assume l: "length xs = 1" and e: "zs = map (f (hd xs)) ys"
    from l have "hd xs \<in> set xs" by (cases xs) simp_all
    moreover have "ys ! i \<in> set ys" "z = f (hd xs) (ys ! i)" using i zi e by simp_all
    ultimately show ?thesis by blast
  qed
qed

lemma bootstrap_after_nonneg:
  assumes ba: "bootstrap_after ops L fg_mask' latent' bg_latent' = Inr (ms, ls)"
    and nn: "\<forall>m \<in> set fg_mask'. \<forall>y x. 0 \<le> m y x"
    and sens: "0 < c_bootstrap_leak_sensitivity L"
  shows "\<forall>m \<in> set ms. \<forall>y x. 0 \<le> m y x"
proof -
  define F where "F = (\<lambda>(l::latent) (b::latent). (\<lambda>y x. sum_list (map (\<lambda>c. (l c y x - b c y x)\<^sup>2)
                          [0..<in_channels ops]) / real (in_channels ops)))"
  define S where "S = (\<lambda>lk::plane. (\<lambda>y x. sigmoid (lk y x / c_bootstrap_leak_sensitivity L) * 2 - 1))"
  define G where "G = (\<lambda>(m::plane) (s::plane). (\<lambda>y x. m y x * s y x))"
  define la where "la = shift_to_mask_bbox_center ops latent' fg_mask' False"
  have eq: "bootstrap_after ops L fg_mask' latent' bg_latent' =
      bind_err (bcast2 F la bg_latent')
        (\<lambda>leak. bind_err (bcast2 G fg_mask' (map S leak)) (\<lambda>fg_mask'. Inr (fg_mask', la)))"
    unfolding bootstrap_after_def Let_def F_def S_def G_def la_def ..
  from ba have "bind_err (bcast2 F la bg_latent')
        (\<lambda>leak. bind_err (bcast2 G fg_mask' (map S leak)) (\<lambda>fg_mask'. Inr (fg_mask', la)))
        = Inr (ms, ls)"
    by (simp only: eq)
  from bind_err_Inr [OF this] obtain leak where lk: "bcast2 F la bg_latent' = Inr leak"
    and r1: "bind_err (bcast2 G fg_mask' (map S leak)) (\<lambda>fg_mask'. Inr (fg_mask', la)) = Inr (ms, ls)"
    by (elim exE conjE)
  from bind_err_Inr [OF r1] obtain ms' where "bcast2 G fg_mask' (map S leak) = Inr ms'"
    and "Inr (ms', la) = (Inr (ms, ls) :: error + (plane list \<times> latent list))"
    by (elim exE conjE)
  then have ms: "bcast2 G fg_mask' (map S leak) = Inr ms" by simp
  have leak_nn: "0 \<le> k y x" if "k \<in> set leak" for k y x
  proof -
    from bcast2_elems [OF lk that] obtain l b where "k = F l b" by (elim bexE)
    then show ?thesis unfolding F_def by (simp only: mean_squares_nonneg)
  qed
  show ?thesis
  proof (intro ballI allI)
    fix m y x assume "m \<in> set ms"
    from bcast2_elems [OF ms this] obtain m0 s where
      m0: "m0 \<in> set fg_mask'" and s: "s \<in> set (map S leak)" and m: "m = G m0 s"
      by (elim bexE)
    from in_set_map [OF s] obtain k where k: "k \<in> set leak" and sk: "s = S k"
      by (elim bexE)
    have "0 \<le> k y x / c_bootstrap_leak_sensitivity L"
      using leak_nn [OF k] sens by simp
    then have "0 \<le> S k y x" unfolding S_def by (rule sigmoid_nonneg)
    moreover have "0 \<le> m0 y x" using bspec [OF nn m0] by simp
    ultimately show "0 \<le> m y x" unfolding m G_def sk by (rule mult_nonneg_nonneg [rotated])
  qed
qed

lemma bind_chain4:
  assumes "bind_err A (\<lambda>(l1, bg). bind_err (B l1) (\<lambda>np. bind_err (C np l1)
             (\<lambda>l2. bind_err (D l2 bg) (\<lambda>(fm, l3). E fm l3)))) = Inr r"
  shows "\<exists>l1 bg np l2 fm l3. A = Inr (l1, bg) \<and> B l1 = Inr np \<and> C np l1 = Inr l2
           \<and> D l2 bg = Inr (fm, l3) \<and> E fm l3 = Inr r"
proof -
  from bind_err_Inr [OF assms] obtain p where a: "A = Inr p"
    and r1: "(case p of (l1, bg) \<Rightarrow> bind_err (B l1) (\<lambda>np. bind_err (C np l1)
             (\<lambda>l2. bind_err (D l2 bg) (\<lambda>(fm, l3). E fm l3)))) = Inr r"
    by (elim exE conjE)
  obtain l1 bg where p: "p = (l1, bg)" by (cases p)
  from r1 p have r2: "bind_err (B l1) (\<lambda>np. bind_err (C np l1)
             (\<lambda>l2. bind_err (D l2 bg) (\<lambda>(fm, l3). E fm l3))) = Inr r" by simp
  from bind_err_Inr [OF r2] obtain np where b: "B l1 = Inr np"
    and r3: "bind_err (C np l1) (\<lambda>l2. bind_err (D l2 bg) (\<lambda>(fm, l3). E fm l3)) = Inr r"
    by (elim exE conjE)
  from bind_err_Inr [OF r3] obtain l2 where c: "C np l1 = Inr l2"
    and r4: "bind_err (D l2 bg) (\<lambda>(fm, l3). E fm l3) = Inr r"
    by (elim exE conjE)
  from bind_err_Inr [OF r4] obtain q where d: "D l2 bg = Inr q"
    and r5: "(case q of (fm, l3) \<Rightarrow> E fm l3) = Inr r"
    by (elim exE conjE)
  obtain fm l3 where q: "q = (fm, l3)" by (cases q)
  from r5 q have "E fm l3 = Inr r" by simp
  with a p b c d q show ?thesis by blast
qed

lemma denoise_view_nonneg:
  assumes dv: "denoise_view ops self L i t fg_mask latent j v = Inr (ms, ls)"
    and fg: "\<forall>m \<in> set fg_mask. \<forall>y x. 0 \<le> m y x"
    and tm: "\<forall>m \<in> set (c_tile_masks L). \<forall>y x. 0 \<le> m y x"
    and sens: "int i < c_bootstrap_steps L \<longrightarrow> 0 < c_bootstrap_leak_sensitivity L"
  shows "\<forall>m \<in> set ms. \<forall>y x. 0 \<le> m y x"
proof -
  have sl: "\<forall>m \<in> set (map (slice_plane v) fg_mask). \<forall>y x. 0 \<le> m y x"
  proof (intro ballI allI)
    fix m y x assume "m \<in> set (map (slice_plane v) fg_mask)"
    from in_set_map [OF this] obtain m0 where "m0 \<in> set fg_mask" and "m = slice_plane v m0"
      by (elim bexE)
    then show "0 \<le> m y x" using fg by (cases v) (simp add: slice_plane_def)
  qed
  from bind_chain4 [OF dv [unfolded denoise_view_def Let_def]]
  obtain l2 bg fm l3 where
    d: "(if int i < c_bootstrap_steps L
         then bootstrap_after ops L (map (slice_plane v) fg_mask) l2 bg
         else Inr (map (slice_plane v) fg_mask, l2)) = Inr (fm, l3)"
    and e: "(if j < length (c_tile_masks L)
             then Inr (map (\<lambda>m. (\<lambda>y x. m y x * slice_plane v (c_tile_masks L ! j) y x)) fm, l3)
             else Inl ShapeError) = Inr (ms, ls)"
    by (elim exE conjE)
  have nn2: "\<forall>m \<in> set fm. \<forall>y x. 0 \<le> m y x"
  proof (cases "int i < c_bootstrap_steps L")
    case True
    with d have "bootstrap_after ops L (map (slice_plane v) fg_mask) l2 bg = Inr (fm, l3)"
      by simp
    from bootstrap_after_nonneg [OF this sl] sens True show ?thesis by simp
  next
    case False
    with d have "fm = map (slice_plane v) fg_mask" by simp
    with sl show ?thesis by simp
  qed
  from e have j: "j < length (c_tile_masks L)"
    and ms: "ms = map (\<lambda>m. (\<lambda>y x. m y x * slice_plane v (c_tile_masks L ! j) y x)) fm"
    by (simp_all split: if_splits)
  have tj: "0 \<le> slice_plane v (c_tile_masks L ! j) y x" for y x
    using tm j by (cases v) (simp add: slice_plane_def)
  show ?thesis
  proof (intro ballI allI)
    fix m y x assume "m \<in> set ms"
    then have "m \<in> set (map (\<lambda>m. (\<lambda>y x. m y x * slice_plane v (c_tile_masks L ! j) y x)) fm)"
      by (simp only: ms)
    from in_set_map [OF this] obtain m0 where m0: "m0 \<in> set fm"
      and m: "m = (\<lambda>y x. m0 y x * slice_plane v (c_tile_masks L ! j) y x)"
      by (elim bexE)
    have "0 \<le> m0 y x" using bspec [OF nn2 m0] by simp
    then show "0 \<le> m y x" unfolding m using tj [of y x] by (rule mult_nonneg_nonneg)
  qed
qed

lemma sum_planes_nonneg:
  assumes "\<forall>m \<in> set ms. \<forall>y x. 0 \<le> m y x"
  shows "0 \<le> sum_planes ms y x"
  unfolding sum_planes_def
proof (rule sum_list_nonneg)
  fix v assume "v \<in> set (map (\<lambda>m. m y x) ms)"
  from in_set_map [OF this] obtain m where "m \<in> set ms" "v = m y x"
    by (elim bexE)
  then show "0 \<le> v" using assms by simp
qed

lemma weighted_zero:
  assumes w: "bcast2 (\<lambda>m l. (\<lambda>c y x. m y x * l c y x)) ms ls = Inr weighted"
    and z: "\<forall>m \<in> set ms. m y x = (0::real)"
  shows "sum_latents weighted c y x = 0"
proof -
  have "\<forall>v \<in> set (map (\<lambda>l. l c y x) weighted). v = 0"
  proof
    fix v assume "v \<in> set (map (\<lambda>l. l c y x) weighted)"
    from in_set_map [OF this] obtain l where l: "l \<in> set weighted" and v: "v = l c y x"
      by (elim bexE)
    from bcast2_elems [OF w l] obtain m l0 where "m \<in> set ms"
      and "l = (\<lambda>c y x. m y x * l0 c y x)" by (elim bexE)
    with z v show "v = 0" by simp
  qed
  then have "sum_list (map (\<lambda>l. l c y x) weighted) = 0"
    by (induction weighted) simp_all
  then show ?thesis by (simp add: sum_latents_def)
qed

lemma mix_view_ok:
  assumes mv: "mix_view L v ms ls acc = Inr acc'"
    and nn: "\<forall>m \<in> set ms. \<forall>y x. 0 \<le> m y x"
    and ok: "acc_ok acc"
  shows "acc_ok acc'"
proof -
  obtain val cnt where acc: "acc = (val, cnt)" by (cases acc)
  obtain h_start h_end w_start w_end where v: "v = (h_start, h_end, w_start, w_end)"
    by (cases v)
  from mv acc have "bind_err (bcast2 (\<lambda>m l. (\<lambda>c y x. m y x * l c y x)) ms ls)
          (\<lambda>weighted. Inr (paste_add (c_h L) (c_w L) v val (sum_latents weighted),
                  paste_add (c_h L) (c_w L) v cnt (broadcast_channels (sum_planes ms)))) = Inr acc'"
    by (simp add: mix_view_def)
  from bind_err_Inr [OF this] obtain weighted where
    w: "bcast2 (\<lambda>m l. (\<lambda>c y x. m y x * l c y x)) ms ls = Inr weighted"
    and acc': "acc' = (paste_add (c_h L) (c_w L) v val (sum_latents weighted),
                  paste_add (c_h L) (c_w L) v cnt (broadcast_channels (sum_planes ms)))"
    by auto
  have okv: "0 \<le> cnt c y x" "cnt c y x = 0 \<Longrightarrow> val c y x = 0" for c y x
    using ok acc by (simp_all add: acc_ok_def)
  define inside where "inside = (\<lambda>y x. h_start \<le> y \<and> y < min h_end (c_h L)
                                      \<and> w_start \<le> x \<and> x < min w_end (c_w L))"
  have pa: "paste_add (c_h L) (c_w L) v a b c y x =
              (if inside y x then a c y x + b c (y - h_start) (x - w_start) else a c y x)"
    for a b c y x
    unfolding paste_add_def v inside_def by (simp only: prod.case)
  have c': "snd acc' c y x = (if inside y x then cnt c y x
                 + sum_planes ms (y - h_start) (x - w_start) else cnt c y x)" for c y x
    unfolding acc' snd_conv pa broadcast_channels_def ..
  have v': "fst acc' c y x = (if inside y x then val c y x
                 + sum_latents weighted c (y - h_start) (x - w_start) else val c y x)" for c y x
    unfolding acc' fst_conv pa ..
  show ?thesis
    unfolding acc_ok_def
  proof (intro allI)
    fix c y x
    show "0 \<le> snd acc' c y x \<and> (snd acc' c y x = 0 \<longrightarrow> fst acc' c y x = 0)"
    proof (cases "inside y x")
      case False
      then show ?thesis using okv [of c y x] by (simp only: c' v' if_False) simp
    next
      case True
      let ?s = "sum_planes ms (y - h_start) (x - w_start)"
      have s0: "0 \<le> ?s" by (rule sum_planes_nonneg [OF nn])
      have c1: "snd acc' c y x = cnt c y x + ?s" using True by (simp only: c' if_True)
      have v1: "fst acc' c y x = val c y x + sum_latents weighted c (y - h_start) (x - w_start)"
        using True by (simp only: v' if_True)
      have "fst acc' c y x = 0" if "snd acc' c y x = 0"
      proof -
        from that c1 s0 okv(1) [of c y x] have c0: "cnt c y x = 0" and ss: "?s = 0"
          by linarith+
        have "\<forall>m \<in> set ms. 0 \<le> m (y - h_start) (x - w_start)" using nn by simp
        from sum_planes_pos_iff [OF this] ss
        have "\<forall>m \<in> set ms. m (y - h_start) (x - w_start) = 0" by simp
        from weighted_zero [OF w this] okv(2) [OF c0] v1 show ?thesis by simp
      qed
      moreover have "0 \<le> snd acc' c y x" using c1 s0 okv(1) [of c y x] by linarith
      ultimately show ?thesis by simp
    qed
  qed
qed

lemma mix_views_ok:
  assumes "mix_views ops self L i t fg_mask latent jvs acc = Inr acc'"
    and "\<forall>m \<in> set fg_mask. \<forall>y x. 0 \<le> m y x"
    and "\<forall>m \<in> set (c_tile_masks L). \<forall>y x. 0 \<le> m y x"
    and "int i < c_bootstrap_steps L \<longrightarrow> 0 < c_bootstrap_leak_sensitivity L"
    and "acc_ok acc"
  shows "acc_ok acc'"
  using assms
proof (induction jvs arbitrary: acc)
  case Nil
  then show ?case by simp
next
  case (Cons jv jvs)
  obtain j v where jv: "jv = (j, v)" by (cases jv)
  from Cons.prems(1) jv have "bind_err (denoise_view ops self L i t fg_mask latent j v)
       (\<lambda>(fg_mask', latent').
          bind_err (mix_view L v fg_mask' latent' acc)
            (mix_views ops self L i t fg_mask latent jvs)) = Inr acc'" by simp
  from bind_err_Inr [OF this] obtain p where d: "denoise_view ops self L i t fg_mask latent j v = Inr p"
    and r: "(case p of (fg_mask', latent') \<Rightarrow>
          bind_err (mix_view L v fg_mask' latent' acc)
            (mix_views ops self L i t fg_mask latent jvs)) = Inr acc'"
    by (elim exE conjE)
  obtain ms ls where p: "p = (ms, ls)" by (cases p)
  from r p have "bind_err (mix_view L v ms ls acc) (mix_views ops self L i t fg_mask latent jvs)
                  = Inr acc'" by simp
  from bind_err_Inr [OF this] obtain acc1 where m: "mix_view L v ms ls acc = Inr acc1"
    and rest: "mix_views ops self L i t fg_mask latent jvs acc1 = Inr acc'"
    by (elim exE conjE)
  have "\<forall>m \<in> set ms. \<forall>y x. 0 \<le> m y x"
    using denoise_view_nonneg [OF d [unfolded p] Cons.prems(2,3,4)] .
  from mix_view_ok [OF m this Cons.prems(5)] have "acc_ok acc1" .
  from Cons.IH [OF rest Cons.prems(2,3,4) this] show ?case .
qed

lemma merge_latent_finite:
  "merge_latent val count_all c y x =
     Some (if 0 < count_all c y x then val c y x / count_all c y x else val c y x)"
  by (simp add: merge_latent_def torch_where_def torch_div_def)

lemma chunks_subset: "row \<in> set (chunks p k xs) \<Longrightarrow> set row \<subseteq> set xs"
proof (induction p arbitrary: xs)
  case 0
  then show ?case by simp
next
  case (Suc p)
  from Suc.prems have "row = take k xs \<or> row \<in> set (chunks p k (drop k xs))" by simp
  then show ?case
  proof
    assume "row = take k xs"
    then show ?thesis by (simp add: set_take_subset)
  next
    assume "row \<in> set (chunks p k (drop k xs))"
    from Suc.IH [OF this] have "set row \<subseteq> set (drop k xs)" .
    also have "\<dots> \<subseteq> set xs" by (rule set_drop_subset)
    finally show ?thesis .
  qed
qed

lemma regroup_rows_subset:
  "regroup n xs = Inr out \<Longrightarrow> row \<in> set out \<Longrightarrow> set row \<subseteq> set xs"
  by (auto simp: regroup_def split: if_splits dest: chunks_subset)

lemma discrete_q_range: "0 \<le> discrete_q nl v \<and> discrete_q nl v \<le> 1"
  by (simp add: discrete_q_def of_bool_real_def)

lemma continuous_q_range: "0 \<le> continuous_q nl nx v \<and> continuous_q nl nx v \<le> 1"
  by (simp add: continuous_q_def clip_def)

lemma quantize_range:
  assumes mt: "mt = ''discrete'' \<or> mt = ''semi-continuous'' \<or> mt = ''continuous''"
    and q: "q \<in> set (quantize mt nls nxs m)"
  shows "0 \<le> q y x \<and> q y x \<le> 1"
proof -
  have d: "0 \<le> q y x \<and> q y x \<le> 1"
    if "q \<in> set (map (\<lambda>nl. (\<lambda>y x. discrete_q nl (m y x))) ls)" for ls
  proof -
    from in_set_map [OF that] obtain nl where "q = (\<lambda>y x. discrete_q nl (m y x))"
      by (elim bexE)
    then show ?thesis using discrete_q_range by simp
  qed
  have c: "0 \<le> q y x \<and> q y x \<le> 1"
    if "q \<in> set (map (\<lambda>(nl, nx). (\<lambda>y x. continuous_q nl nx (m y x))) ps)" for ps
  proof -
    from in_set_map [OF that] obtain pr where
      "q = (\<lambda>(nl, nx). (\<lambda>y x. continuous_q nl nx (m y x))) pr" by (elim bexE)
    then show ?thesis using continuous_q_range by (cases pr) simp
  qed
  from mt show ?thesis
  proof (elim disjE)
    assume "mt = ''discrete''"
    with q show ?thesis using d by (simp add: quantize_def)
  next
    assume "mt = ''semi-continuous''"
    with q have "q \<in> set (map (\<lambda>nl. (\<lambda>y x. discrete_q nl (m y x))) (butlast nls))
        \<or> q \<in> set (map (\<lambda>(nl, nx). (\<lambda>y x. continuous_q nl nx (m y x)))
              (drop (length nls - 1) (zip nls nxs)))"
      by (simp add: quantize_def)
    then show ?thesis using d c by blast
  next
    assume "mt = ''continuous''"
    with q show ?thesis using c by (simp add: quantize_def)
  qed
qed

lemma process_mask_range:
  assumes pm: "process_mask ops self masks strength std height width ubm ts a = Inr (out, blurred, std')"
    and mt: "mask_type self = ''discrete'' \<or> mask_type self = ''semi-continuous''
             \<or> mask_type self = ''continuous''"
    and row: "row \<in> set out" and m: "m \<in> set row"
  shows "0 \<le> m y x \<and> m y x \<le> 1"
proof -
  define N where "N = interpolate_nearest ops height width (height div vae_scale_factor self)
                    (width div vae_scale_factor self)"
  define Q where "Q = quantize (mask_type self) (fst (mask_noise_lvs self ts))
                               (snd (mask_noise_lvs self ts))"
  from process_mask_regroup [OF pm] obtain n scaled
    where rg: "regroup n (map N (concat (map Q scaled))) = Inr out"
    by (auto simp: N_def Q_def)
  from regroup_rows_subset [OF rg row] m have "m \<in> set (map N (concat (map Q scaled)))"
    by blast
  from in_set_map [OF this] obtain q where q: "q \<in> set (concat (map Q scaled))"
    and mq: "m = N q" by (elim bexE)
  from q obtain s where "q \<in> set (Q s)" by auto
  then have "0 \<le> q y' x' \<and> q y' x' \<le> 1" for y' x'
    unfolding Q_def using quantize_range [OF mt] by blast
  then show ?thesis by (simp add: mq N_def interpolate_nearest_def)
qed

lemma background_masks_range:
  "m \<in> set (background_masks fg) \<Longrightarrow> 0 \<le> m y x \<and> m y x \<le> 1"
proof -
  assume "m \<in> set (background_masks fg)"
  then have "m \<in> set (map (\<lambda>t. (\<lambda>y x. clip 0 1 (1 - sum_list (map (\<lambda>row. (row ! t) y x) fg))))
         [0..<length (hd fg)])" by (simp add: background_masks_def)
  from in_set_map [OF this] obtain t where
    "m = (\<lambda>y x. clip 0 1 (1 - sum_list (map (\<lambda>row. (row ! t) y x) fg)))" by (elim bexE)
  then show ?thesis by (simp add: clip_def)
qed

lemma demo_ctx_sel:
  "c_num_masks demo_ctx = 1"
  "c_fg_masks demo_ctx = [[half, half]]"
  "c_has_background demo_ctx = False"
  "c_noise_bg_latents demo_ctx = []"
  "c_white demo_ctx = None"
  "c_noise demo_ctx = full_latent 0"
  "c_views demo_ctx = [(0, 1, 0, 2)]"
  "c_tile_masks demo_ctx = [full 1]"
  "c_prompt_embeds demo_ctx = [full 3]"
  "c_pooled_prompt_embeds demo_ctx = [full_pooled 3]"
  "c_do_classifier_free_guidance demo_ctx = False"
  "c_guidance_scale demo_ctx = 0"
  "c_guidance_rescale demo_ctx = 0.7"
  "c_bootstrap_steps demo_ctx = 0"
  "c_boostrap_mix_steps demo_ctx = 1"
  "c_bootstrap_leak_sensitivity demo_ctx = 0.2"
  "c_h demo_ctx = 1"
  "c_w demo_ctx = 2"
  by (simp_all add: demo_ctx_def)

lemma demo_process_mask_half:
  "process_mask demo_ops demo_pipeline (MTensor [half]) (Some (Scalar 1)) (Some (Scalar 0))
     8 16 True (Some [750, 0]) (Some 0) = Inr ([[half, half]], [half], [0])"
  by (simp add: process_mask_def masks_to_tensor_def overlap_decay_def demo_mask_noise_lvs
      per_region_list_def bcast2_def quantize_def regroup_def interpolate_nearest_def
      discrete_q_def of_bool_real_def half_def demo_ops_sel demo_pipeline_sel Let_def
      numeral_2_eq_2 fun_eq_iff)

lemma demo_denoise_view:
  "denoise_view demo_call_ops demo_pipeline demo_ctx 0 750 [half] (full_latent 2) 0 (0, 1, 0, 2)
     = Inr ([half], [full_latent (- 2)])"
  by (simp add: denoise_view_def demo_ctx_sel demo_call_ops_sel demo_pipeline_sel
      guided_noise_pred_def demo_transformer_def repeat_batch_def bcast2_def scheduler_step_def
      slice_plane_def slice_latent_def full_def full_latent_def Let_def)

lemma demo_mix_views:
  "\<exists>val count_all.
     mix_views demo_call_ops demo_pipeline demo_ctx 0 750 [half] (full_latent 2)
       [(0, (0, 1, 0, 2))] (\<lambda>c y x. 0, \<lambda>c y x. 0) = Inr (val, count_all)
     \<and> count_all 0 0 0 = 1 \<and> val 0 0 0 = - 2 \<and> count_all 0 0 1 = 0"
  apply (simp only: mix_views.simps demo_denoise_view bind_err_simps prod.case)
  apply (simp add: mix_view_def bcast2_def paste_add_def sum_latents_def
      sum_planes_def broadcast_channels_def demo_ctx_sel half_def full_latent_def)
  done



end
